theory Spec2Isabelle
  imports Main
begin

section \<open>Data model of \<open>src/qt/walletmodel.cpp\<close>\<close>

text \<open>
  A \<open>QString\<close> is a sequence of UTF-16 code units; \<open>QString::length\<close> counts them.
  A \<open>std::string\<close> and a \<open>std::vector<uint8_t>\<close> are byte sequences (\<open>char list\<close>).
  The conversion \<open>QString::toStdString\<close> belongs to the Qt library and is a parameter of
  the model (field \<open>toStdString\<close> of the environment below).
\<close>

type_synonym QString = "nat list"
type_synonym bytes = "char list"
type_synonym ec_secret = bytes
type_synonym ec_point = bytes

text \<open>
  \<open>WalletModel::StatusCode\<close> and \<open>WalletModel::SendCoinsReturn\<close>. The declarations live in
  \<open>walletmodel.h\<close>; the source constructs \<open>SendCoinsReturn(status)\<close>,
  \<open>SendCoinsReturn(status, fee)\<close> and \<open>SendCoinsReturn(status, fee, hex)\<close>, the omitted
  arguments being \<open>fee = 0\<close> and the empty \<open>hex\<close>. The field \<open>hex\<close> holds the bytes
  that \<open>QString::fromStdString\<close> is given.
\<close>

datatype StatusCode =
    OK
  | InvalidAmount
  | InvalidAddress
  | AmountExceedsBalance
  | AmountWithFeeExceedsBalance
  | DuplicateAddress
  | TransactionCreationFailed
  | TransactionCommitFailed
  | NarrationTooLong
  | Aborted

record SendCoinsReturn =
  status :: StatusCode
  fee :: int
  hex :: string

definition SendCoinsReturn1 :: "StatusCode \<Rightarrow> SendCoinsReturn" where
  "SendCoinsReturn1 s = \<lparr>status = s, fee = 0, hex = []\<rparr>"

definition SendCoinsReturn2 :: "StatusCode \<Rightarrow> int \<Rightarrow> SendCoinsReturn" where
  "SendCoinsReturn2 s f = \<lparr>status = s, fee = f, hex = []\<rparr>"

text \<open>
  \<open>AddressTableModel::AT_Stealth\<close> is one value of the address-type enumeration of
  \<open>addresstablemodel.h\<close>; the source only compares \<open>typeInd\<close> with it.
\<close>

datatype AddressType = AT_Unknown | AT_Normal | AT_Stealth

record SendCoinsRecipient =
  address :: QString
  label :: QString
  narration :: QString
  typeInd :: AddressType
  amount :: int

record CStealthAddress =
  scan_pubkey :: ec_point
  spend_pubkey :: ec_point

text \<open>
  \<open>CTxDestination\<close> (a variant of no destination, a key hash or a script hash) and scripts.
  \<open>CScript() << OP_RETURN << v\<close> appends the opcode and then a push of the byte vector
  \<open>v\<close>. An element of \<open>vecSend\<close> is a pair of a script and a value.
\<close>

datatype CTxDestination = CNoDestination | CKeyID bytes | CScriptID bytes

datatype script_elem = OP_RETURN | PUSH bytes | OP_OTHER nat

type_synonym CScript = "script_elem list"
type_synonym CTxOut = "CScript \<times> int"

record CWalletTx =
  vout :: "CTxOut list"
  mapValue :: "string \<rightharpoonup> string"

text \<open>
  The wallet state that \<open>sendCoins\<close> itself reads and writes: the address book. Every
  other contact with the wallet, the chain lock or the user is a call of a collaborator
  and is recorded, in order, as an event.
\<close>

record CWallet =
  mapAddressBook :: "CTxDestination \<rightharpoonup> string"

datatype event =
    EvAvailableCoins
  | EvLOCK2
  | EvCReserveKey
  | EvCreateTransaction "CTxOut list"
  | EvAskFee int
  | EvCommitTransaction CWalletTx
  | EvLOCK
  | EvUpdateStealthAddress string string
  | EvSetAddressBookName CTxDestination string

text \<open>
  The collaborators of \<open>walletmodel.cpp\<close>, none of them defined in it. Each field stands
  for the call named in its comment; a failing call (a non-zero return code, \<open>false\<close>)
  is \<open>None\<close> where the call also yields data.
\<close>

record env =
  toStdString :: "QString \<Rightarrow> string"
    \<comment> \<open>\<open>QString::toStdString()\<close>\<close>
  IsStealthAddress :: "string \<Rightarrow> bool"
    \<comment> \<open>\<open>IsStealthAddress(sAddr)\<close>\<close>
  addrIsValid :: "string \<Rightarrow> bool"
    \<comment> \<open>\<open>CBitcoinAddress(sAddr).IsValid()\<close>\<close>
  addrGet :: "string \<Rightarrow> CTxDestination"
    \<comment> \<open>\<open>CBitcoinAddress(sAddr).Get()\<close>\<close>
  AvailableCoins :: "int list"
    \<comment> \<open>the \<open>nValue\<close> of each output that \<open>wallet->AvailableCoins\<close> puts in \<open>vCoins\<close>\<close>
  nTransactionFee :: int
    \<comment> \<open>the global \<open>nTransactionFee\<close>\<close>
  SetEncoded :: "string \<Rightarrow> CStealthAddress option"
    \<comment> \<open>\<open>sxAddr.SetEncoded(sAddr)\<close>\<close>
  GenerateRandomSecret :: "nat \<Rightarrow> ec_secret option"
    \<comment> \<open>\<open>GenerateRandomSecret(ephem_secret)\<close>, by the number of earlier calls in this run\<close>
  StealthSecret :: "ec_secret \<Rightarrow> ec_point \<Rightarrow> ec_point \<Rightarrow> (ec_secret \<times> ec_point) option"
    \<comment> \<open>\<open>StealthSecret(ephem_secret, scan, spend, secretShared, pkSendTo)\<close>\<close>
  pubkeyIsValid :: "ec_point \<Rightarrow> bool"
    \<comment> \<open>\<open>CPubKey(pkSendTo).IsValid()\<close>\<close>
  pubkeyDest :: "ec_point \<Rightarrow> CTxDestination"
    \<comment> \<open>\<open>CBitcoinAddress(CPubKey(pkSendTo).GetID()).Get()\<close>\<close>
  SecretToPublicKey :: "ec_secret \<Rightarrow> ec_point option"
    \<comment> \<open>\<open>SecretToPublicKey(ephem_secret, ephem_pubkey)\<close>\<close>
  Encrypt :: "ec_secret \<Rightarrow> ec_point \<Rightarrow> string \<Rightarrow> bytes option"
    \<comment> \<open>\<open>SecMsgCrypter::SetKey\<close> followed by \<open>Encrypt\<close>\<close>
  SetDestination :: "CTxDestination \<Rightarrow> CScript"
    \<comment> \<open>\<open>CScript::SetDestination\<close>\<close>
  CreateTransaction :: "CTxOut list \<Rightarrow> bool \<times> CWalletTx \<times> int \<times> int"
    \<comment> \<open>\<open>wallet->CreateTransaction\<close>: \<open>fCreated\<close>, \<open>wtx\<close>, \<open>nFeeRequired\<close>, \<open>nChangePos\<close>\<close>
  AskFee :: "int \<Rightarrow> bool"
    \<comment> \<open>\<open>uiInterface.ThreadSafeAskFee\<close>\<close>
  CommitTransaction :: "CWalletTx \<Rightarrow> bool"
    \<comment> \<open>\<open>wallet->CommitTransaction\<close>\<close>
  GetHex :: "CWalletTx \<Rightarrow> string"
    \<comment> \<open>\<open>wtx.GetHash().GetHex()\<close>\<close>

section \<open>\<open>WalletModel::validateAddress\<close>\<close>

definition validateAddress :: "env \<Rightarrow> QString \<Rightarrow> bool" where
  "validateAddress e addr =
     (let sAddr = toStdString e addr in
      if length sAddr > 75 \<and> IsStealthAddress e sAddr then True
      else addrIsValid e sAddr)"

section \<open>\<open>WalletModel::sendCoins\<close>\<close>

subsection \<open>64-bit arithmetic\<close>

text \<open>
  Amounts, fees and balances are \<open>qint64\<close> or \<open>int64_t\<close> in the source: integers from
  \<open>-2^63\<close> to \<open>2^63 - 1\<close>. Every addition of the source (lines 236, 249, 256 and 424) is
  taken modulo \<open>2^64\<close> into that range, which is what the compiled additions yield when
  a sum leaves it. \<open>sum64\<close> is a loop that starts at 0 and adds each element in turn.
\<close>

definition wrap64 :: "int \<Rightarrow> int" where
  "wrap64 x = (x + 2 ^ 63) mod 2 ^ 64 - 2 ^ 63"

definition add64 :: "int \<Rightarrow> int \<Rightarrow> int" where
  "add64 a b = wrap64 (a + b)"

definition sum64 :: "int list \<Rightarrow> int" where
  "sum64 xs = foldl add64 0 xs"

subsection \<open>The pre-check loop (source lines 224 to 237)\<close>

text \<open>
  \<open>setAddress\<close> is the \<open>QSet<QString>\<close> of the addresses seen, \<open>total\<close> the running
  64-bit sum of the amounts.
\<close>

fun precheck :: "env \<Rightarrow> SendCoinsRecipient list \<Rightarrow> int \<Rightarrow> QString set
    \<Rightarrow> StatusCode + int \<times> QString set" where
  "precheck e [] total' setAddress = Inr (total', setAddress)"
| "precheck e (rcp # rest) total' setAddress =
     (if \<not> validateAddress e (address rcp) then Inl InvalidAddress
      else
      (let setAddress' = insert (address rcp) setAddress in
       if amount rcp \<le> 0 then Inl InvalidAmount
       else precheck e rest (add64 total' (amount rcp)) setAddress'))"

subsection \<open>The output loop (source lines 270 to 396)\<close>

text \<open>
  \<open>mapStealthNarr\<close> is a \<open>std::map<int, std::string>\<close>: an association list kept in
  ascending key order, which is the order its iterator visits. \<open>map_set k v m\<close> is
  \<open>m[k] = v\<close>.
\<close>

fun map_set :: "int \<Rightarrow> string \<Rightarrow> (int \<times> string) list \<Rightarrow> (int \<times> string) list" where
  "map_set k v [] = [(k, v)]"
| "map_set k v ((k', v') # m) =
     (if k < k' then (k, v) # (k', v') # m
      else if k = k' then (k, v) # m
      else (k', v') # map_set k v m)"

record build_state =
  vecSend :: "CTxOut list"
  mapStealthNarr :: "(int \<times> string) list"
  nRand :: nat

text \<open>The stealth branch, entered after \<open>sxAddr.SetEncoded(sAddr)\<close> succeeded (lines 279 to 364).\<close>

definition send_stealth :: "env \<Rightarrow> SendCoinsRecipient \<Rightarrow> CStealthAddress \<Rightarrow> build_state
    \<Rightarrow> StatusCode + build_state" where
  "send_stealth e rcp sxAddr st =
     (case GenerateRandomSecret e (nRand st) of
        None \<Rightarrow> Inl Aborted
      | Some ephem_secret \<Rightarrow>
     (case StealthSecret e ephem_secret (scan_pubkey sxAddr) (spend_pubkey sxAddr) of
        None \<Rightarrow> Inl Aborted
      | Some (secretShared, pkSendTo) \<Rightarrow>
     if \<not> pubkeyIsValid e pkSendTo then Inl Aborted
     else
     (case SecretToPublicKey e ephem_secret of
        None \<Rightarrow> Inl Aborted
      | Some ephem_pubkey \<Rightarrow>
     (let vecSend1 = vecSend st @ [(SetDestination e (pubkeyDest e pkSendTo), amount rcp)];
          scriptP = [OP_RETURN, PUSH ephem_pubkey]
      in
      if length (narration rcp) > 0 then
        (let sNarr = toStdString e (narration rcp) in
         if length sNarr > 24 then Inl NarrationTooLong
         else
         (case Encrypt e secretShared ephem_pubkey sNarr of
            None \<Rightarrow> Inl Aborted
          | Some vchNarr \<Rightarrow>
         if length vchNarr > 48 then Inl Aborted
         else
         (let scriptP' = (if length vchNarr > 0 then scriptP @ [OP_RETURN, PUSH vchNarr]
                          else scriptP);
              pos = int (length vecSend1) - 1
          in Inr (st\<lparr>vecSend := vecSend1 @ [(scriptP', 0)],
                     mapStealthNarr := map_set pos sNarr (mapStealthNarr st),
                     nRand := Suc (nRand st)\<rparr>))))
      else Inr (st\<lparr>vecSend := vecSend1 @ [(scriptP, 0)], nRand := Suc (nRand st)\<rparr>)))))"

text \<open>The standard branch (lines 368 to 395), also reached when \<open>SetEncoded\<close> fails.\<close>

definition send_normal :: "env \<Rightarrow> SendCoinsRecipient \<Rightarrow> build_state \<Rightarrow> StatusCode + build_state" where
  "send_normal e rcp st =
     (let sAddr = toStdString e (address rcp);
          vecSend1 = vecSend st @ [(SetDestination e (addrGet e sAddr), amount rcp)]
      in
      if length (narration rcp) > 0 then
        (let sNarr = toStdString e (narration rcp) in
         if length sNarr > 24 then Inl NarrationTooLong
         else
         (let scriptN = [OP_RETURN, PUSH [CHR ''n'', CHR ''p''], OP_RETURN, PUSH sNarr]
          in Inr (st\<lparr>vecSend := vecSend1 @ [(scriptN, 0)]\<rparr>)))
      else Inr (st\<lparr>vecSend := vecSend1\<rparr>))"

definition send_recipient :: "env \<Rightarrow> SendCoinsRecipient \<Rightarrow> build_state \<Rightarrow> StatusCode + build_state" where
  "send_recipient e rcp st =
     (let sAddr = toStdString e (address rcp) in
      if typeInd rcp = AT_Stealth then
        (case SetEncoded e sAddr of
           Some sxAddr \<Rightarrow> send_stealth e rcp sxAddr st
         | None \<Rightarrow> send_normal e rcp st)
      else send_normal e rcp st)"

fun sendmany :: "env \<Rightarrow> SendCoinsRecipient list \<Rightarrow> build_state \<Rightarrow> StatusCode + build_state" where
  "sendmany e [] st = Inr st"
| "sendmany e (rcp # rest) st =
     (case send_recipient e rcp st of
        Inl err \<Rightarrow> Inl err
      | Inr st' \<Rightarrow> sendmany e rest st')"

definition build_init :: build_state where
  "build_init = \<lparr>vecSend = [], mapStealthNarr = [], nRand = 0\<rparr>"

subsection \<open>Attaching the narrations to the transaction (lines 405 to 419)\<close>

text \<open>
  \<open>snprintf(key, sizeof(key), "n_%u", pos)\<close>: the text \<open>n_\<close> followed by \<open>pos\<close> in decimal
  (\<open>pos\<close> is a position in \<open>vecSend\<close>, so it is not negative and far below \<open>2^32\<close>). The
  call returns the length of that text.
\<close>

definition digit :: "nat \<Rightarrow> char" where
  "digit d = ''0123456789'' ! d"

fun dec :: "nat \<Rightarrow> string" where
  "dec n = (if n < 10 then [digit n] else dec (n div 10) @ [digit (n mod 10)])"

declare dec.simps [simp del]

definition snprintf_n_u :: "int \<Rightarrow> string" where
  "snprintf_n_u pos = [CHR ''n'', CHR ''_''] @ dec (nat pos)"

definition shifted_pos :: "int \<Rightarrow> int \<Rightarrow> int" where
  "shifted_pos nChangePos first = (if nChangePos > -1 \<and> first \<ge> nChangePos then first + 1 else first)"

fun attach_narrations :: "int \<Rightarrow> (int \<times> string) list \<Rightarrow> CWalletTx \<Rightarrow> CWalletTx" where
  "attach_narrations nChangePos [] wtx = wtx"
| "attach_narrations nChangePos ((first, second) # it) wtx =
     (let pos = shifted_pos nChangePos first;
          key = snprintf_n_u pos
      in if length key < 1 then attach_narrations nChangePos it wtx
         else attach_narrations nChangePos it (wtx\<lparr>mapValue := (mapValue wtx)(key \<mapsto> second)\<rparr>))"

subsection \<open>The address-book loop (lines 444 to 466)\<close>

record SendRun =
  ret :: SendCoinsReturn
  wallet :: CWallet
  trace :: "event list"

fun update_address_book :: "env \<Rightarrow> SendCoinsRecipient list \<Rightarrow> CWallet \<times> event list
    \<Rightarrow> CWallet \<times> event list" where
  "update_address_book e [] (w, tr) = (w, tr)"
| "update_address_book e (rcp # rest) (w, tr) =
     (let strAddress = toStdString e (address rcp);
          dest = addrGet e strAddress;
          strLabel = toStdString e (label rcp)
      in
      if typeInd rcp = AT_Stealth then
        update_address_book e rest (w, tr @ [EvLOCK, EvUpdateStealthAddress strAddress strLabel])
      else if (case mapAddressBook w dest of None \<Rightarrow> True | Some l \<Rightarrow> l \<noteq> strLabel) then
        update_address_book e rest
          (w\<lparr>mapAddressBook := (mapAddressBook w)(dest \<mapsto> strLabel)\<rparr>,
           tr @ [EvLOCK, EvSetAddressBookName dest strLabel])
      else update_address_book e rest (w, tr @ [EvLOCK]))"

subsection \<open>The function\<close>

text \<open>The block under \<open>LOCK2(cs_main, wallet->cs_wallet)\<close> and what follows it.\<close>

definition sendCoins_locked :: "env \<Rightarrow> CWallet \<Rightarrow> SendCoinsRecipient list \<Rightarrow> int \<Rightarrow> int \<Rightarrow> SendRun" where
  "sendCoins_locked e w recipients total' nBalance =
     (case sendmany e recipients build_init of
        Inl err \<Rightarrow> \<lparr>ret = SendCoinsReturn1 err, wallet = w, trace = [EvAvailableCoins, EvLOCK2]\<rparr>
      | Inr st \<Rightarrow>
     (case CreateTransaction e (vecSend st) of (fCreated, wtx0, nFeeRequired, nChangePos) \<Rightarrow>
     (let wtx = attach_narrations nChangePos (mapStealthNarr st) wtx0;
          tr = [EvAvailableCoins, EvLOCK2, EvCReserveKey, EvCreateTransaction (vecSend st)]
      in
      if \<not> fCreated then
        (if add64 total' nFeeRequired > nBalance
         then \<lparr>ret = SendCoinsReturn2 AmountWithFeeExceedsBalance nFeeRequired, wallet = w, trace = tr\<rparr>
         else \<lparr>ret = SendCoinsReturn1 TransactionCreationFailed, wallet = w, trace = tr\<rparr>)
      else if \<not> AskFee e nFeeRequired then
        \<lparr>ret = SendCoinsReturn1 Aborted, wallet = w, trace = tr @ [EvAskFee nFeeRequired]\<rparr>
      else if \<not> CommitTransaction e wtx then
        \<lparr>ret = SendCoinsReturn1 TransactionCommitFailed, wallet = w,
         trace = tr @ [EvAskFee nFeeRequired, EvCommitTransaction wtx]\<rparr>
      else
        (case update_address_book e recipients
                (w, tr @ [EvAskFee nFeeRequired, EvCommitTransaction wtx]) of
           (w', tr') \<Rightarrow>
             \<lparr>ret = \<lparr>status = OK, fee = 0, hex = GetHex e wtx\<rparr>, wallet = w', trace = tr'\<rparr>))))"

definition sendCoins :: "env \<Rightarrow> CWallet \<Rightarrow> SendCoinsRecipient list \<Rightarrow> SendRun" where
  "sendCoins e w recipients =
     (if recipients = [] then \<lparr>ret = SendCoinsReturn1 OK, wallet = w, trace = []\<rparr>
      else
      (case precheck e recipients 0 {} of
         Inl err \<Rightarrow> \<lparr>ret = SendCoinsReturn1 err, wallet = w, trace = []\<rparr>
       | Inr (total', setAddress) \<Rightarrow>
      if int (length recipients) > int (card setAddress) then
        \<lparr>ret = SendCoinsReturn1 DuplicateAddress, wallet = w, trace = []\<rparr>
      else
      (let nBalance = sum64 (AvailableCoins e) in
       if total' > nBalance then
         \<lparr>ret = SendCoinsReturn1 AmountExceedsBalance, wallet = w, trace = [EvAvailableCoins]\<rparr>
       else if add64 total' (nTransactionFee e) > nBalance then
         \<lparr>ret = SendCoinsReturn2 AmountWithFeeExceedsBalance (nTransactionFee e), wallet = w,
          trace = [EvAvailableCoins]\<rparr>
       else sendCoins_locked e w recipients total' nBalance)))"

section \<open>Reading a run\<close>

text \<open>
  \<open>committed r\<close>: the run called \<open>wallet->CommitTransaction\<close>. The events of the
  address-book loop are the lock of the wallet and the two address-book calls.
\<close>

fun is_commit :: "event \<Rightarrow> bool" where
  "is_commit (EvCommitTransaction wtx) = True"
| "is_commit ev = False"

definition committed :: "SendRun \<Rightarrow> bool" where
  "committed r = list_ex is_commit (trace r)"

fun is_book_event :: "event \<Rightarrow> bool" where
  "is_book_event EvLOCK = True"
| "is_book_event (EvUpdateStealthAddress a l) = True"
| "is_book_event (EvSetAddressBookName d l) = True"
| "is_book_event ev = False"

text \<open>
  The keys of \<open>mapStealthNarr\<close> stay in strictly ascending order and are never negative:
  the invariant of the output loop that the narration keys rest on.
\<close>

definition narr_inv :: "build_state \<Rightarrow> bool" where
  "narr_inv st = (sorted_wrt (<) (map fst (mapStealthNarr st)) \<and>
                  list_all (\<lambda>k. 0 \<le> k) (map fst (mapStealthNarr st)))"

section \<open>Change insertion\<close>

text \<open>
  Modelled from the spec: the search for the place of the change output, which happens
  inside \<open>wallet->CreateTransaction\<close> (\<open>wallet.cpp\<close> is not among the sources). The spec
  requires that change insertion must not split a payment output from the zero-value output
  that follows it, at any change position. \<open>step_back i outs\<close> moves a position that lies
  on a zero-value output back to the nearest earlier output that carries a value, or to
  the front when there is none.
\<close>

fun step_back :: "nat \<Rightarrow> CTxOut list \<Rightarrow> nat" where
  "step_back 0 outs = 0"
| "step_back (Suc i) outs = (if snd (outs ! Suc i) \<noteq> 0 then Suc i else step_back i outs)"

text \<open>
  Modelled from the spec: the actual change position for a candidate position. The front
  and the end of the sequence are taken as they are; a candidate strictly inside the
  sequence is moved off zero-value outputs.
\<close>

definition change_pos :: "nat \<Rightarrow> CTxOut list \<Rightarrow> nat" where
  "change_pos c outs = (if 0 < c \<and> c < length outs then step_back c outs else c)"

text \<open>
  Modelled from the spec: the insertion of the change output for a candidate position. The
  output is inserted at the actual change position, and every output at a position greater
  than or equal to it moves up by one.
\<close>

definition insert_change :: "nat \<Rightarrow> CTxOut \<Rightarrow> CTxOut list \<Rightarrow> CTxOut list" where
  "insert_change c change outs =
     take (change_pos c outs) outs @ [change] @ drop (change_pos c outs) outs"

section \<open>Concrete inputs\<close>

text \<open>
  A small world in which every collaborator succeeds: \<open>qs\<close> turns a byte string into the
  \<open>QString\<close> with the same code units, \<open>toStdString\<close> keeps the low byte of each code
  unit, every non-empty string is a standard address, the strings that start with \<open>S\<close>
  decode as stealth addresses, and the wallet holds two coins worth 1000 together. The
  variants change one collaborator each.
\<close>

definition qs :: "string \<Rightarrow> QString" where
  "qs s = map of_char s"

definition env0 :: env where
  "env0 = \<lparr>toStdString = map char_of,
     IsStealthAddress = (\<lambda>s. take 1 s = ''S''),
     addrIsValid = (\<lambda>s. s \<noteq> []),
     addrGet = CKeyID,
     AvailableCoins = [600, 400],
     nTransactionFee = 10,
     SetEncoded = (\<lambda>s. if take 1 s = ''S''
                         then Some \<lparr>scan_pubkey = ''scan'', spend_pubkey = ''spend''\<rparr>
                         else None),
     GenerateRandomSecret = (\<lambda>k. Some ''secret''),
     StealthSecret = (\<lambda>s a b. Some (''shared'', ''pk'')),
     pubkeyIsValid = (\<lambda>p. True),
     pubkeyDest = CKeyID,
     SecretToPublicKey = (\<lambda>s. Some ''ephem''),
     Encrypt = (\<lambda>k iv s. Some (s @ s)),
     SetDestination = (\<lambda>d. [OP_OTHER 0, PUSH (case d of CKeyID h \<Rightarrow> h | _ \<Rightarrow> [])]),
     CreateTransaction = (\<lambda>outs. (True, \<lparr>vout = outs, mapValue = Map.empty\<rparr>, 10, -1)),
     AskFee = (\<lambda>f. True),
     CommitTransaction = (\<lambda>t. True),
     GetHex = (\<lambda>t. ''00'')\<rparr>"

definition env_fee :: env where
  "env_fee = env0\<lparr>CreateTransaction :=
     (\<lambda>outs. (True, \<lparr>vout = outs, mapValue = Map.empty\<rparr>, 600, -1))\<rparr>"

definition env_nocreate :: env where
  "env_nocreate = env0\<lparr>CreateTransaction :=
     (\<lambda>outs. (False, \<lparr>vout = [], mapValue = Map.empty\<rparr>, 600, -1))\<rparr>"

definition env_change :: env where
  "env_change = env0\<lparr>CreateTransaction :=
     (\<lambda>outs. (True, \<lparr>vout = insert_change 0 ([OP_OTHER 1], 690) outs, mapValue = Map.empty\<rparr>,
               10, 0))\<rparr>"

definition env_norandom :: env where
  "env_norandom = env0\<lparr>GenerateRandomSecret := (\<lambda>k. None)\<rparr>"

definition env_nocrypt :: env where
  "env_nocrypt = env0\<lparr>Encrypt := (\<lambda>k iv s. None)\<rparr>"

definition w0 :: CWallet where
  "w0 = \<lparr>mapAddressBook = Map.empty\<rparr>"

definition rcp_plain :: SendCoinsRecipient where
  "rcp_plain = \<lparr>address = qs ''A1'', label = qs ''alice'', narration = qs ''hi'',
     typeInd = AT_Normal, amount = 500\<rparr>"

definition rcp_long :: SendCoinsRecipient where
  "rcp_long = \<lparr>address = qs ''A1'', label = qs ''alice'',
     narration = qs (replicate 25 CHR ''a''), typeInd = AT_Normal, amount = 500\<rparr>"

definition rcp_stealth :: SendCoinsRecipient where
  "rcp_stealth = \<lparr>address = qs ''S1'', label = qs ''bob'', narration = qs ''yo'',
     typeInd = AT_Stealth, amount = 300\<rparr>"

definition rcp_stealth_long :: SendCoinsRecipient where
  "rcp_stealth_long = \<lparr>address = qs ''S1'', label = qs ''bob'',
     narration = qs (replicate 25 CHR ''a''), typeInd = AT_Stealth, amount = 300\<rparr>"

definition rcp_stealth2 :: SendCoinsRecipient where
  "rcp_stealth2 = \<lparr>address = qs ''S2'', label = qs ''dave'', narration = [],
     typeInd = AT_Stealth, amount = 200\<rparr>"

definition rcp_marked :: SendCoinsRecipient where
  "rcp_marked = \<lparr>address = qs ''B2'', label = qs ''carol'', narration = [],
     typeInd = AT_Stealth, amount = 200\<rparr>"

section \<open>Auxiliary facts\<close>

lemma length_qs [simp]: "length (qs s) = length s"
  by (simp add: qs_def)

lemma toStdString_qs [simp]: "map char_of (qs s) = s"
  by (simp add: qs_def)

lemma qs_Nil_iff [simp]: "qs s = [] \<longleftrightarrow> s = []"
  by (simp add: qs_def)

lemma qs_eq_iff [simp]: "qs s = qs t \<longleftrightarrow> s = t"
  by (simp add: qs_def inj_map_eq_map[OF inj_of_char])

lemmas run_defs = sendCoins_def sendCoins_locked_def validateAddress_def
  wrap64_def add64_def sum64_def
  send_recipient_def send_normal_def send_stealth_def build_init_def
  SendCoinsReturn1_def SendCoinsReturn2_def Let_def card_insert_if

lemma precheck_Inl:
  "precheck e rs t S = Inl err \<Longrightarrow> err = InvalidAddress \<or> err = InvalidAmount"
  by (induction rs arbitrary: t S) (auto simp: Let_def split: if_splits)

lemma precheck_Inr:
  "\<forall>r\<in>set rs. validateAddress e (address r) \<and> 0 < amount r \<Longrightarrow>
   precheck e rs t S = Inr (foldl add64 t (map amount rs), S \<union> set (map address rs))"
  by (induction rs arbitrary: t S) (auto simp: Let_def)

lemma send_normal_Inl: "send_normal e rcp st = Inl err \<Longrightarrow> err = NarrationTooLong"
  by (auto simp: send_normal_def Let_def split: if_splits)

lemma send_stealth_Inl:
  "send_stealth e rcp sx st = Inl err \<Longrightarrow> err = NarrationTooLong \<or> err = Aborted"
  by (auto simp: send_stealth_def Let_def split: if_splits option.splits prod.splits)

lemma send_recipient_Inl:
  "send_recipient e rcp st = Inl err \<Longrightarrow> err = NarrationTooLong \<or> err = Aborted"
  by (auto simp: send_recipient_def Let_def split: if_splits option.splits
      dest: send_normal_Inl send_stealth_Inl)

lemma sendmany_Inl: "sendmany e rs st = Inl err \<Longrightarrow> err = NarrationTooLong \<or> err = Aborted"
  by (induction rs arbitrary: st) (auto split: sum.splits dest: send_recipient_Inl)

lemma sendCoins_locked_NarrationTooLong:
  "status (ret (sendCoins_locked e w rs t b)) = NarrationTooLong \<Longrightarrow>
   trace (sendCoins_locked e w rs t b) = [EvAvailableCoins, EvLOCK2] \<and>
   wallet (sendCoins_locked e w rs t b) = w"
  by (auto simp: sendCoins_locked_def Let_def SendCoinsReturn1_def SendCoinsReturn2_def
      split: sum.splits prod.splits if_splits)

lemma sendCoins_locked_status:
  "status (ret (sendCoins_locked e w rs t b)) \<notin> {InvalidAddress, InvalidAmount, DuplicateAddress}"
  by (auto simp: sendCoins_locked_def Let_def SendCoinsReturn1_def SendCoinsReturn2_def
      split: sum.splits prod.splits if_splits dest: sendmany_Inl)

lemma precheck_total:
  "precheck e rs t S = Inr (t', S') \<Longrightarrow> t' = foldl add64 t (map amount rs)"
  by (induction rs arbitrary: t S) (fastforce simp: Let_def split: if_splits)+

lemma update_address_book_trace:
  "update_address_book e rs (w, tr) = (w', tr') \<Longrightarrow>
   \<exists>evs. tr' = tr @ evs \<and> list_all is_book_event evs"
proof (induction rs arbitrary: w tr)
  case Nil
  then show ?case by simp
next
  case (Cons rcp rs)
  show ?case
    using Cons.prems
    by (auto simp: Let_def split: if_splits option.splits dest!: Cons.IH)
qed

lemma book_events_no_create:
  "list_all is_book_event evs \<Longrightarrow> EvCreateTransaction outs \<notin> set evs"
  by (induction evs) auto

lemma book_events_no_commit:
  "list_all is_book_event evs \<Longrightarrow> EvCommitTransaction wtx \<notin> set evs"
  by (induction evs) auto

lemma sendCoins_lock_reached:
  "EvLOCK2 \<in> set (trace (sendCoins e w rs)) \<Longrightarrow>
   sendCoins e w rs = sendCoins_locked e w rs (sum64 (map amount rs)) (sum64 (AvailableCoins e)) \<and>
   sum64 (map amount rs) \<le> sum64 (AvailableCoins e) \<and>
   add64 (sum64 (map amount rs)) (nTransactionFee e) \<le> sum64 (AvailableCoins e)"
  by (auto simp: sendCoins_def Let_def sum64_def split: if_splits sum.splits prod.splits
      dest: precheck_total)

lemma sendCoins_locked_create:
  "EvCreateTransaction outs \<in> set (trace (sendCoins_locked e w rs t b)) \<Longrightarrow>
   \<exists>st. sendmany e rs build_init = Inr st \<and> outs = vecSend st"
  by (auto simp: sendCoins_locked_def Let_def split: sum.splits prod.splits if_splits
      dest!: update_address_book_trace dest: book_events_no_create)

lemma sendCoins_create:
  "EvCreateTransaction outs \<in> set (trace (sendCoins e w rs)) \<Longrightarrow>
   \<exists>st. sendmany e rs build_init = Inr st \<and> outs = vecSend st"
proof -
  assume a: "EvCreateTransaction outs \<in> set (trace (sendCoins e w rs))"
  have "EvLOCK2 \<in> set (trace (sendCoins e w rs))"
    using a
    by (auto simp: sendCoins_def sendCoins_locked_def Let_def split: sum.splits prod.splits if_splits
      dest!: update_address_book_trace dest: book_events_no_create)
  from sendCoins_lock_reached[OF this] a sendCoins_locked_create show ?thesis by metis
qed

lemma sendCoins_locked_Inl:
  "sendmany e rs build_init = Inl err \<Longrightarrow> status (ret (sendCoins_locked e w rs t b)) = err"
  by (simp add: sendCoins_locked_def SendCoinsReturn1_def)

lemma sendmany_append:
  "sendmany e (xs @ ys) st =
     (case sendmany e xs st of Inl err \<Rightarrow> Inl err | Inr st' \<Rightarrow> sendmany e ys st')"
  by (induction xs arbitrary: st) (auto split: sum.splits)

lemma sendmany_first_failure:
  "sendmany e pre st = Inr st1 \<Longrightarrow> send_recipient e rcp st1 = Inl err \<Longrightarrow>
   sendmany e (pre @ rcp # post) st = Inl err"
  by (simp add: sendmany_append)

lemma send_normal_Inr:
  "send_normal e rcp st = Inr st' \<Longrightarrow>
   st' = st\<lparr>vecSend := vecSend st @
           (SetDestination e (addrGet e (toStdString e (address rcp))), amount rcp) #
           (if 0 < length (narration rcp)
            then [([OP_RETURN, PUSH ''np'', OP_RETURN, PUSH (toStdString e (narration rcp))], 0)]
            else [])\<rparr> \<and>
   (0 < length (narration rcp) \<longrightarrow> length (toStdString e (narration rcp)) \<le> 24)"
  by (auto simp: send_normal_def Let_def split: if_splits)

lemma send_stealth_Inr:
  "send_stealth e rcp sx st = Inr st' \<Longrightarrow>
   \<exists>sec shared pk eph scr.
     GenerateRandomSecret e (nRand st) = Some sec \<and>
     StealthSecret e sec (scan_pubkey sx) (spend_pubkey sx) = Some (shared, pk) \<and>
     pubkeyIsValid e pk \<and>
     SecretToPublicKey e sec = Some eph \<and>
     take 2 scr = [OP_RETURN, PUSH eph] \<and>
     vecSend st' = vecSend st @ [(SetDestination e (pubkeyDest e pk), amount rcp), (scr, 0)]"
  by (auto simp: send_stealth_def Let_def split: if_splits option.splits prod.splits)

lemma send_recipient_prefix:
  "send_recipient e rcp st = Inr st' \<Longrightarrow> \<exists>suf. vecSend st' = vecSend st @ suf"
  by (auto simp: send_recipient_def Let_def split: if_splits option.splits
      dest!: send_normal_Inr send_stealth_Inr)

lemma sendmany_prefix:
  "sendmany e rs st = Inr st' \<Longrightarrow> \<exists>suf. vecSend st' = vecSend st @ suf"
proof (induction rs arbitrary: st)
  case Nil
  then show ?case by simp
next
  case (Cons rcp rs)
  from Cons.prems obtain st1 where 1: "send_recipient e rcp st = Inr st1"
    and 2: "sendmany e rs st1 = Inr st'"
    by (auto split: sum.splits)
  from send_recipient_prefix[OF 1] Cons.IH[OF 2] show ?case by auto
qed

lemma sendmany_split:
  assumes "sendmany e rs st = Inr st'" and "rcp \<in> set rs"
  shows "\<exists>st1 st2 before after.
           send_recipient e rcp st1 = Inr st2 \<and>
           vecSend st1 = vecSend st @ before \<and>
           vecSend st' = vecSend st2 @ after"
proof -
  from assms(2) obtain xs ys where rs: "rs = xs @ rcp # ys"
    by (auto simp: in_set_conv_decomp)
  from assms(1) rs obtain st1 where 1: "sendmany e xs st = Inr st1"
    and r: "sendmany e (rcp # ys) st1 = Inr st'"
    by (auto simp: sendmany_append split: sum.splits)
  from r obtain st2 where 2: "send_recipient e rcp st1 = Inr st2"
    and 3: "sendmany e ys st2 = Inr st'"
    by (auto split: sum.splits)
  from sendmany_prefix[OF 1] sendmany_prefix[OF 3] 2 show ?thesis by blast
qed

lemma sendmany_split_at:
  assumes "sendmany e (pre @ rcp # post) st = Inr st'"
  shows "\<exists>st1 st2 after.
           sendmany e pre st = Inr st1 \<and>
           send_recipient e rcp st1 = Inr st2 \<and>
           vecSend st' = vecSend st2 @ after"
proof -
  from assms obtain st1 where 1: "sendmany e pre st = Inr st1"
    and r: "sendmany e (rcp # post) st1 = Inr st'"
    by (auto simp: sendmany_append split: sum.splits)
  from r obtain st2 where 2: "send_recipient e rcp st1 = Inr st2"
    and 3: "sendmany e post st2 = Inr st'"
    by (auto split: sum.splits)
  from sendmany_prefix[OF 3] 1 2 show ?thesis by blast
qed

lemma step_back_value: "step_back i outs = 0 \<or> snd (outs ! step_back i outs) \<noteq> 0"
  by (induction i) auto

lemma step_back_le: "step_back i outs \<le> i"
  by (induction i) auto

lemma change_pos_le: "c \<le> length outs \<Longrightarrow> change_pos c outs \<le> length outs"
  using step_back_le[of c outs] by (auto simp: change_pos_def)

lemma change_pos_off_zero_value:
  assumes "0 < q" and "q < length outs" and "snd (outs ! q) = 0"
  shows "change_pos c outs \<noteq> q"
proof (cases "0 < c \<and> c < length outs")
  case True
  then have "change_pos c outs = step_back c outs" by (simp add: change_pos_def)
  with step_back_value[of c outs] assms show ?thesis by auto
next
  case False
  with assms show ?thesis by (auto simp: change_pos_def)
qed

lemma insert_before_pair:
  assumes "a \<le> p" and "p + 1 < length outs"
  shows "(take a outs @ [chg] @ drop a outs) ! (p + 1) = outs ! p"
    and "(take a outs @ [chg] @ drop a outs) ! (p + 2) = outs ! (p + 1)"
proof -
  from assms have l: "length (take a outs) = a" by simp
  from assms have "(take a outs @ [chg] @ drop a outs) ! (p + 1) = (chg # drop a outs) ! (p + 1 - a)"
    by (simp add: nth_append l)
  also from assms have "\<dots> = drop a outs ! (p - a)" by (simp add: Suc_diff_le)
  also from assms have "\<dots> = outs ! p" by simp
  finally show "(take a outs @ [chg] @ drop a outs) ! (p + 1) = outs ! p" .
  from assms have "(take a outs @ [chg] @ drop a outs) ! (p + 2) = (chg # drop a outs) ! (p + 2 - a)"
    by (simp add: nth_append l)
  also from assms have "\<dots> = drop a outs ! (p + 1 - a)" by (simp add: Suc_diff_le)
  also from assms have "\<dots> = outs ! (p + 1)" by simp
  finally show "(take a outs @ [chg] @ drop a outs) ! (p + 2) = outs ! (p + 1)" .
qed

lemma insert_after_pair:
  assumes "p + 2 \<le> a" and "a \<le> length outs"
  shows "(take a outs @ [chg] @ drop a outs) ! p = outs ! p"
    and "(take a outs @ [chg] @ drop a outs) ! (p + 1) = outs ! (p + 1)"
  using assms by (simp_all add: nth_append)

lemma wrap64_id: "- (2 ^ 63) \<le> x \<Longrightarrow> x < 2 ^ 63 \<Longrightarrow> wrap64 x = x"
  by (simp add: wrap64_def)

lemma foldl_add64_exact:
  "\<forall>x\<in>set xs. 0 \<le> x \<Longrightarrow> 0 \<le> t \<Longrightarrow> t + sum_list xs < 2 ^ 63 \<Longrightarrow>
   foldl add64 t xs = t + sum_list xs"
proof (induction xs arbitrary: t)
  case Nil
  then show ?case by simp
next
  case (Cons x xs)
  from Cons.prems have x: "0 \<le> x" and xs: "\<forall>y\<in>set xs. 0 \<le> y" by simp_all
  from xs have s: "0 \<le> sum_list xs" by (simp add: sum_list_nonneg)
  from Cons.prems x s have "- (2 ^ 63) \<le> t + x" and "t + x < 2 ^ 63" by simp_all
  then have a: "add64 t x = t + x" by (simp add: add64_def wrap64_id)
  from Cons.prems x have "0 \<le> t + x" and "(t + x) + sum_list xs < 2 ^ 63" by simp_all
  from Cons.IH[OF xs this] a show ?case by simp
qed

lemma sum64_exact:
  "\<forall>x\<in>set xs. 0 \<le> x \<Longrightarrow> sum_list xs < 2 ^ 63 \<Longrightarrow> sum64 xs = sum_list xs"
  using foldl_add64_exact[of xs 0] by (simp add: sum64_def)

lemma precheck_positive:
  "precheck e rs t S = Inr p \<Longrightarrow> \<forall>r\<in>set rs. 0 < amount r"
  by (induction rs arbitrary: t S) (auto simp: Let_def split: if_splits)

lemma lock_amounts_positive:
  "EvLOCK2 \<in> set (trace (sendCoins e w rs)) \<Longrightarrow> \<forall>r\<in>set rs. 0 < amount r"
  by (auto simp: sendCoins_def Let_def split: if_splits sum.splits prod.splits
      dest!: precheck_positive)

lemma digit_code: "d < 10 \<Longrightarrow> (of_char (digit d) :: nat) = 48 + d"
proof -
  assume "d < 10"
  then have "d \<in> {0, 1, 2, 3, 4, 5, 6, 7, 8, 9}" by auto
  then show ?thesis by (auto simp: digit_def)
qed

lemma digit_inj:
  assumes "a < 10" and "b < 10" and "digit a = digit b"
  shows "a = b"
proof -
  have "(of_char (digit a) :: nat) = of_char (digit b)"
    using assms(3) by (rule arg_cong)
  then have "48 + a = 48 + b"
    by (simp only: digit_code[OF assms(1)] digit_code[OF assms(2)])
  then show ?thesis by (simp only: add_left_cancel)
qed

lemma dec_nonempty: "dec n \<noteq> []"
  by (subst dec.simps) simp

lemma dec_inj: "dec a = dec b \<Longrightarrow> a = b"
proof (induction a arbitrary: b rule: dec.induct)
  case (1 n)
  show ?case
  proof (cases "n < 10")
    case True
    then have dn: "dec n = [digit n]" by (subst dec.simps) simp
    show ?thesis
    proof (cases "b < 10")
      case True
      then have "dec b = [digit b]" by (subst dec.simps) simp
      with dn "1.prems" \<open>n < 10\<close> True show ?thesis by (auto dest: digit_inj)
    next
      case False
      then have "dec b = dec (b div 10) @ [digit (b mod 10)]" by (subst dec.simps) simp
      with dn "1.prems" dec_nonempty[of "b div 10"] show ?thesis by (cases "dec (b div 10)") auto
    qed
  next
    case False
    then have dn: "dec n = dec (n div 10) @ [digit (n mod 10)]" by (subst dec.simps) simp
    show ?thesis
    proof (cases "b < 10")
      case True
      then have "dec b = [digit b]" by (subst dec.simps) simp
      with dn "1.prems" dec_nonempty[of "n div 10"] show ?thesis by (cases "dec (n div 10)") auto
    next
      case b: False
      then have "dec b = dec (b div 10) @ [digit (b mod 10)]" by (subst dec.simps) simp
      with dn "1.prems" have q: "dec (n div 10) = dec (b div 10)"
        and r: "digit (n mod 10) = digit (b mod 10)" by auto
      from "1.IH"[OF False q] have "n div 10 = b div 10" .
      moreover from r have "n mod 10 = b mod 10"
        using digit_inj[of "n mod 10" "b mod 10"] by simp
      ultimately show ?thesis by (metis div_mult_mod_eq)
    qed
  qed
qed

lemma snprintf_n_u_inj:
  "0 \<le> p \<Longrightarrow> 0 \<le> q \<Longrightarrow> snprintf_n_u p = snprintf_n_u q \<Longrightarrow> p = q"
  by (auto simp: snprintf_n_u_def dest!: dec_inj)

lemma snprintf_n_u_length [simp]: "\<not> length (snprintf_n_u p) < 1"
  by (simp add: snprintf_n_u_def)

lemma snprintf_n_u_nonempty [simp]: "snprintf_n_u p \<noteq> []"
  by (simp add: snprintf_n_u_def)

lemma shifted_pos_inj: "shifted_pos c p = shifted_pos c q \<Longrightarrow> p = q"
  by (auto simp: shifted_pos_def split: if_splits)

lemma shifted_pos_nonneg: "0 \<le> p \<Longrightarrow> 0 \<le> shifted_pos c p"
  by (auto simp: shifted_pos_def)

lemma attach_frame:
  "\<forall>q\<in>set (map fst m). snprintf_n_u (shifted_pos c q) \<noteq> key \<Longrightarrow>
   mapValue (attach_narrations c m wtx) key = mapValue wtx key"
  by (induction m arbitrary: wtx) (auto simp: Let_def snprintf_n_u_length)

lemma attach_entry:
  assumes "distinct (map fst m)" and "\<forall>q\<in>set (map fst m). 0 \<le> q" and "(p, s) \<in> set m"
  shows "mapValue (attach_narrations c m wtx) (snprintf_n_u (shifted_pos c p)) = Some s"
  using assms
proof (induction m arbitrary: wtx)
  case Nil
  then show ?case by simp
next
  case (Cons x m)
  obtain k v where x: "x = (k, v)" by (cases x)
  show ?case
  proof (cases "(p, s) \<in> set m")
    case True
    with Cons show ?thesis by (auto simp: x Let_def snprintf_n_u_length)
  next
    case False
    with Cons.prems x have pk: "p = k" "s = v" by auto
    have "\<forall>q\<in>set (map fst m). snprintf_n_u (shifted_pos c q) \<noteq> snprintf_n_u (shifted_pos c k)"
    proof
      fix q assume q: "q \<in> set (map fst m)"
      with Cons.prems x have "q \<noteq> k" "0 \<le> q" "0 \<le> k" by auto
      then show "snprintf_n_u (shifted_pos c q) \<noteq> snprintf_n_u (shifted_pos c k)"
        using snprintf_n_u_inj[OF shifted_pos_nonneg shifted_pos_nonneg] shifted_pos_inj by blast
    qed
    from attach_frame[OF this] show ?thesis
      by (simp add: x pk Let_def snprintf_n_u_length)
  qed
qed

lemma map_set_mem: "x \<in> set (map_set k v m) \<Longrightarrow> x = (k, v) \<or> x \<in> set m"
  by (induction m) (auto split: if_splits)

lemma map_set_sorted:
  "sorted_wrt (<) (map fst m) \<Longrightarrow> sorted_wrt (<) (map fst (map_set k v m))"
proof (induction m)
  case Nil
  then show ?case by simp
next
  case (Cons x m)
  obtain k' v' where x: "x = (k', v')" by (cases x)
  from Cons.prems x have low: "\<forall>q\<in>fst ` set m. k' < q" and so: "sorted_wrt (<) (map fst m)"
    by auto
  show ?case
  proof (cases "k < k'")
    case True
    with low so show ?thesis by (auto simp: x)
  next
    case False
    show ?thesis
    proof (cases "k = k'")
      case True
      with low so show ?thesis by (auto simp: x)
    next
      case ne: False
      with False have "k' < k" by simp
      with low have "\<forall>q\<in>fst ` set (map_set k v m). k' < q"
        by (auto dest!: map_set_mem)
      with False ne Cons.IH[OF so] show ?thesis by (auto simp: x)
    qed
  qed
qed

lemma map_set_inv:
  assumes "sorted_wrt (<) (map fst m)" and "list_all (\<lambda>k. 0 \<le> k) (map fst m)" and "0 \<le> k"
  shows "sorted_wrt (<) (map fst (map_set k v m)) \<and>
         list_all (\<lambda>k. 0 \<le> k) (map fst (map_set k v m))"
proof
  from assms(1) show "sorted_wrt (<) (map fst (map_set k v m))" by (rule map_set_sorted)
  from assms(2,3) show "list_all (\<lambda>k. 0 \<le> k) (map fst (map_set k v m))"
    by (auto simp: list_all_iff dest!: map_set_mem)
qed

lemma send_normal_narr: "send_normal e rcp st = Inr st' \<Longrightarrow> mapStealthNarr st' = mapStealthNarr st"
  by (auto simp: send_normal_def Let_def split: if_splits)

lemma send_stealth_narr:
  "send_stealth e rcp sx st = Inr st' \<Longrightarrow>
   mapStealthNarr st' = mapStealthNarr st \<or>
   mapStealthNarr st' =
     map_set (int (length (vecSend st))) (toStdString e (narration rcp)) (mapStealthNarr st)"
  by (auto simp: send_stealth_def Let_def split: if_splits option.splits prod.splits)

lemma send_recipient_inv:
  assumes "narr_inv st" and "send_recipient e rcp st = Inr st'"
  shows "narr_inv st'"
proof -
  from assms(2) have "mapStealthNarr st' = mapStealthNarr st \<or>
      mapStealthNarr st' =
        map_set (int (length (vecSend st))) (toStdString e (narration rcp)) (mapStealthNarr st)"
    by (auto simp: send_recipient_def Let_def split: if_splits option.splits
        dest: send_normal_narr send_stealth_narr)
  then show ?thesis
  proof
    assume "mapStealthNarr st' = mapStealthNarr st"
    with assms(1) show ?thesis by (simp add: narr_inv_def)
  next
    assume m: "mapStealthNarr st' =
        map_set (int (length (vecSend st))) (toStdString e (narration rcp)) (mapStealthNarr st)"
    from assms(1) show ?thesis
      unfolding narr_inv_def m by (intro map_set_inv) simp_all
  qed
qed

lemma sendmany_inv: "narr_inv st \<Longrightarrow> sendmany e rs st = Inr st' \<Longrightarrow> narr_inv st'"
  by (induction rs arbitrary: st) (auto split: sum.splits dest: send_recipient_inv)

lemma sendCoins_locked_commit:
  "EvCommitTransaction wtx \<in> set (trace (sendCoins_locked e w rs t b)) \<Longrightarrow>
   \<exists>st wtx0 f c. sendmany e rs build_init = Inr st \<and>
     CreateTransaction e (vecSend st) = (True, wtx0, f, c) \<and>
     wtx = attach_narrations c (mapStealthNarr st) wtx0"
  by (auto simp: sendCoins_locked_def Let_def split: sum.splits prod.splits if_splits
      dest!: update_address_book_trace dest: book_events_no_commit)

lemma sendCoins_commit:
  assumes "EvCommitTransaction wtx \<in> set (trace (sendCoins e w rs))"
  shows "\<exists>st wtx0 f c. sendmany e rs build_init = Inr st \<and>
     CreateTransaction e (vecSend st) = (True, wtx0, f, c) \<and>
     wtx = attach_narrations c (mapStealthNarr st) wtx0"
proof -
  have "EvLOCK2 \<in> set (trace (sendCoins e w rs))"
    using assms
    by (auto simp: sendCoins_def sendCoins_locked_def Let_def split: sum.splits prod.splits if_splits
      dest!: update_address_book_trace dest: book_events_no_commit)
  from sendCoins_lock_reached[OF this] assms sendCoins_locked_commit show ?thesis by metis
qed

section \<open>The claims\<close>

subsection \<open>C9: the empty recipient list\<close>

text \<open>
  C9. For the empty recipient list \<open>sendCoins\<close> returns \<open>OK\<close> with fee 0 and no
  transaction id, leaves the wallet as it was and calls no collaborator: the trace of
  events is empty.
\<close>

theorem sendCoins_empty:
  "sendCoins e w [] = \<lparr>ret = \<lparr>status = OK, fee = 0, hex = []\<rparr>, wallet = w, trace = []\<rparr>"
  by (simp add: sendCoins_def SendCoinsReturn1_def)

subsection \<open>C8: address validation\<close>

text \<open>
  As stated, C8 fails: a string longer than 75 characters that does not decode as a stealth
  address is not rejected there, it drops through to the standard parser, whose answer is
  returned. In \<open>env0\<close> the standard parser accepts every non-empty string, so the string
  of 76 letters \<open>A\<close> is valid although its stealth parse fails.
\<close>

theorem long_address_standard_parse:
  "75 < length (toStdString env0 (qs (replicate 76 CHR ''A''))) \<and>
   \<not> IsStealthAddress env0 (toStdString env0 (qs (replicate 76 CHR ''A''))) \<and>
   validateAddress env0 (qs (replicate 76 CHR ''A''))"
  by (simp add: validateAddress_def env0_def)

text \<open>
  C8, amended. A string of at most 75 characters is parsed as a standard address only. A
  longer string is first tried as a stealth address and is valid if that succeeds;
  otherwise it too is parsed as a standard address. The result is a truth value and the
  function touches no state.
\<close>

theorem validateAddress_cases:
  "(length (toStdString e a) \<le> 75 \<longrightarrow> validateAddress e a = addrIsValid e (toStdString e a)) \<and>
   (75 < length (toStdString e a) \<longrightarrow>
      validateAddress e a = (IsStealthAddress e (toStdString e a) \<or> addrIsValid e (toStdString e a)))"
  by (auto simp: validateAddress_def Let_def)

theorem validateAddress_cases_witness:
  "length (toStdString env0 (qs ''A1'')) \<le> 75 \<and>
   validateAddress env0 (qs ''A1'') = addrIsValid env0 (toStdString env0 (qs ''A1'')) \<and>
   75 < length (toStdString env0 (qs (replicate 80 CHR ''S''))) \<and>
   IsStealthAddress env0 (toStdString env0 (qs (replicate 80 CHR ''S''))) \<and>
   validateAddress env0 (qs (replicate 80 CHR ''S''))"
proof -
  have s: "length (toStdString env0 (qs ''A1'')) \<le> 75"
    by (simp add: env0_def)
  have l: "75 < length (toStdString env0 (qs (replicate 80 CHR ''S'')))"
    by (simp add: env0_def)
  have i: "IsStealthAddress env0 (toStdString env0 (qs (replicate 80 CHR ''S'')))"
    by (simp add: env0_def)
  from validateAddress_cases[of env0 "qs ''A1''"] validateAddress_cases[of env0 "qs (replicate 80 CHR ''S'')"]
    s l i show ?thesis by blast
qed

subsection \<open>C1: where the input errors are produced\<close>

text \<open>
  As stated, C1 fails for \<open>NarrationTooLong\<close>: the length of a narration is only looked at
  inside the output loop, which runs under \<open>LOCK2(cs_main, wallet->cs_wallet)\<close> and after
  the available coins were read. One standard recipient with a narration of 25 bytes shows
  it.
\<close>

theorem NarrationTooLong_after_lock:
  "status (ret (sendCoins env0 w0 [rcp_long])) = NarrationTooLong \<and>
   EvLOCK2 \<in> set (trace (sendCoins env0 w0 [rcp_long]))"
  by (simp add: run_defs env0_def w0_def rcp_long_def)

text \<open>
  C1, amended. \<open>InvalidAddress\<close>, \<open>InvalidAmount\<close> and \<open>DuplicateAddress\<close> are produced
  before the lock is taken and before any collaborator is called (empty trace), with the
  wallet unchanged. \<open>NarrationTooLong\<close> is produced with the lock held, after the
  available coins were read and before the change key, the transaction or the address book
  are touched; the wallet is unchanged there too.
\<close>

theorem input_errors_side_effects:
  "(status (ret (sendCoins e w rs)) \<in> {InvalidAddress, InvalidAmount, DuplicateAddress} \<longrightarrow>
      trace (sendCoins e w rs) = [] \<and> wallet (sendCoins e w rs) = w) \<and>
   (status (ret (sendCoins e w rs)) = NarrationTooLong \<longrightarrow>
      trace (sendCoins e w rs) = [EvAvailableCoins, EvLOCK2] \<and> wallet (sendCoins e w rs) = w)"
proof (cases "rs = []")
  case True
  then show ?thesis by (simp add: sendCoins_def SendCoinsReturn1_def)
next
  case False
  show ?thesis
  proof (cases "precheck e rs 0 {}")
    case (Inl err)
    with False precheck_Inl[OF Inl] show ?thesis
      by (auto simp: sendCoins_def SendCoinsReturn1_def)
  next
    case (Inr p)
    obtain t S where p: "p = (t, S)" by (cases p)
    show ?thesis
      using False Inr p
        sendCoins_locked_NarrationTooLong[of e w rs t "sum64 (AvailableCoins e)"]
        sendCoins_locked_status[of e w rs t "sum64 (AvailableCoins e)"]
      by (auto simp: sendCoins_def Let_def SendCoinsReturn1_def SendCoinsReturn2_def)
  qed
qed

theorem input_errors_side_effects_witness:
  "status (ret (sendCoins env0 w0 [rcp_plain, rcp_plain])) = DuplicateAddress \<and>
   trace (sendCoins env0 w0 [rcp_plain, rcp_plain]) = [] \<and>
   wallet (sendCoins env0 w0 [rcp_plain, rcp_plain]) = w0 \<and>
   status (ret (sendCoins env0 w0 [rcp_long])) = NarrationTooLong \<and>
   trace (sendCoins env0 w0 [rcp_long]) = [EvAvailableCoins, EvLOCK2] \<and>
   wallet (sendCoins env0 w0 [rcp_long]) = w0"
proof -
  have d: "status (ret (sendCoins env0 w0 [rcp_plain, rcp_plain])) = DuplicateAddress"
    by (simp add: run_defs env0_def w0_def rcp_plain_def)
  have n: "status (ret (sendCoins env0 w0 [rcp_long])) = NarrationTooLong"
    by (simp add: run_defs env0_def w0_def rcp_long_def)
  show ?thesis
    using d n input_errors_side_effects[of env0 w0 "[rcp_plain, rcp_plain]"]
      input_errors_side_effects[of env0 w0 "[rcp_long]"]
    by simp
qed

subsection \<open>C5: duplicate destinations\<close>

text \<open>
  C5. When every listed address is valid, every amount is positive and some address occurs
  twice in the list, \<open>sendCoins\<close> returns \<open>DuplicateAddress\<close> and nothing else happened:
  no coin was read (\<open>AvailableCoins\<close> is not called), no transaction was created or
  committed, and the wallet is unchanged.
\<close>

theorem duplicate_address:
  assumes "\<forall>r\<in>set rs. validateAddress e (address r) \<and> 0 < amount r"
    and "\<not> distinct (map address rs)"
  shows "sendCoins e w rs =
    \<lparr>ret = \<lparr>status = DuplicateAddress, fee = 0, hex = []\<rparr>, wallet = w, trace = []\<rparr>"
proof -
  from assms(2) have ne: "rs \<noteq> []" by auto
  have "card (set (map address rs)) \<le> length (map address rs)" by (rule card_length)
  moreover have "card (set (map address rs)) \<noteq> length (map address rs)"
    using assms(2) card_distinct by blast
  ultimately have "card (set (map address rs)) < length rs" by simp
  then show ?thesis
    using ne precheck_Inr[OF assms(1), of 0 "{}"]
    by (simp add: sendCoins_def SendCoinsReturn1_def)
qed

theorem duplicate_address_witness:
  "validateAddress env0 (address rcp_plain) \<and> 0 < amount rcp_plain \<and>
   validateAddress env0 (address rcp_long) \<and> 0 < amount rcp_long \<and>
   \<not> distinct (map address [rcp_plain, rcp_long]) \<and>
   sendCoins env0 w0 [rcp_plain, rcp_long] =
     \<lparr>ret = \<lparr>status = DuplicateAddress, fee = 0, hex = []\<rparr>, wallet = w0, trace = []\<rparr>"
proof -
  have v: "\<forall>r\<in>set [rcp_plain, rcp_long]. validateAddress env0 (address r) \<and> 0 < amount r"
    by (simp add: validateAddress_def env0_def rcp_plain_def rcp_long_def)
  have d: "\<not> distinct (map address [rcp_plain, rcp_long])"
    by (simp add: rcp_plain_def rcp_long_def)
  from duplicate_address[OF v d, of w0] v d show ?thesis by simp
qed

subsection \<open>C3: the two fee checks\<close>

text \<open>
  As stated, C3 fails: when \<open>CreateTransaction\<close> succeeds, \<open>sendCoins\<close> asks for the fee
  and commits without comparing the new fee with the balance. Here the balance read before
  the lock is 1000, the amount 500 and the fee that \<open>CreateTransaction\<close> reports 600; no
  sum leaves the 64-bit range.
\<close>

theorem commit_without_recheck:
  "status (ret (sendCoins env_fee w0 [rcp_plain])) = OK \<and>
   committed (sendCoins env_fee w0 [rcp_plain]) \<and>
   EvAskFee 600 \<in> set (trace (sendCoins env_fee w0 [rcp_plain])) \<and>
   sum64 (map amount [rcp_plain]) = 500 \<and>
   add64 (sum64 (map amount [rcp_plain])) 600 = 1100 \<and>
   sum64 (AvailableCoins env_fee) = 1000"
  by (simp add: run_defs env_fee_def env0_def w0_def rcp_plain_def committed_def)

text \<open>
  C3, amended. With every sum taken in 64-bit arithmetic: the sufficiency check with the
  assumed fee \<open>nTransactionFee\<close> is made before the lock, which is only taken when the
  total and the total plus that fee are within the balance; when no sum leaves the 64-bit
  range this is the inequality on the true sums. After \<open>CreateTransaction\<close> the comparison
  with the newly computed fee is made only when the creation failed, where it chooses
  between \<open>AmountWithFeeExceedsBalance\<close> carrying that fee and
  \<open>TransactionCreationFailed\<close>; nothing is committed then. When the creation succeeded
  no comparison is made: a declined fee gives \<open>Aborted\<close> with nothing committed, and an
  accepted fee sends the transaction to \<open>CommitTransaction\<close> whatever the fee and the
  balance are, with the result \<open>OK\<close> or \<open>TransactionCommitFailed\<close>.
\<close>

theorem fee_checks:
  "(EvLOCK2 \<in> set (trace (sendCoins e w rs)) \<longrightarrow>
      sum64 (map amount rs) \<le> sum64 (AvailableCoins e) \<and>
      add64 (sum64 (map amount rs)) (nTransactionFee e) \<le> sum64 (AvailableCoins e)) \<and>
   (EvLOCK2 \<in> set (trace (sendCoins e w rs)) \<and>
    (\<forall>v\<in>set (AvailableCoins e). 0 \<le> v) \<and>
    sum_list (AvailableCoins e) < 2 ^ 63 \<and>
    sum_list (map amount rs) < 2 ^ 63 \<and>
    - (2 ^ 63) \<le> sum_list (map amount rs) + nTransactionFee e \<and>
    sum_list (map amount rs) + nTransactionFee e < 2 ^ 63 \<longrightarrow>
      sum_list (map amount rs) + nTransactionFee e \<le> sum_list (AvailableCoins e)) \<and>
   (\<forall>st wtx0 f c.
      EvLOCK2 \<in> set (trace (sendCoins e w rs)) \<and>
      sendmany e rs build_init = Inr st \<and>
      CreateTransaction e (vecSend st) = (False, wtx0, f, c) \<longrightarrow>
      ret (sendCoins e w rs) =
        (if add64 (sum64 (map amount rs)) f > sum64 (AvailableCoins e)
         then SendCoinsReturn2 AmountWithFeeExceedsBalance f
         else SendCoinsReturn1 TransactionCreationFailed) \<and>
      \<not> committed (sendCoins e w rs)) \<and>
   (\<forall>st wtx0 f c.
      EvLOCK2 \<in> set (trace (sendCoins e w rs)) \<and>
      sendmany e rs build_init = Inr st \<and>
      CreateTransaction e (vecSend st) = (True, wtx0, f, c) \<longrightarrow>
      (if AskFee e f
       then EvCommitTransaction (attach_narrations c (mapStealthNarr st) wtx0)
              \<in> set (trace (sendCoins e w rs)) \<and>
            status (ret (sendCoins e w rs)) =
              (if CommitTransaction e (attach_narrations c (mapStealthNarr st) wtx0)
               then OK else TransactionCommitFailed)
       else ret (sendCoins e w rs) = SendCoinsReturn1 Aborted \<and>
            \<not> committed (sendCoins e w rs)))"
proof (cases "EvLOCK2 \<in> set (trace (sendCoins e w rs))")
  case False
  then show ?thesis by simp
next
  case True
  note u = sendCoins_lock_reached[OF True]
  from u have 1: "sum64 (map amount rs) \<le> sum64 (AvailableCoins e) \<and>
      add64 (sum64 (map amount rs)) (nTransactionFee e) \<le> sum64 (AvailableCoins e)"
    by simp
  have 2: "(\<forall>v\<in>set (AvailableCoins e). 0 \<le> v) \<and>
    sum_list (AvailableCoins e) < 2 ^ 63 \<and>
    sum_list (map amount rs) < 2 ^ 63 \<and>
    - (2 ^ 63) \<le> sum_list (map amount rs) + nTransactionFee e \<and>
    sum_list (map amount rs) + nTransactionFee e < 2 ^ 63 \<longrightarrow>
      sum_list (map amount rs) + nTransactionFee e \<le> sum_list (AvailableCoins e)"
  proof
    assume h: "(\<forall>v\<in>set (AvailableCoins e). 0 \<le> v) \<and>
      sum_list (AvailableCoins e) < 2 ^ 63 \<and>
      sum_list (map amount rs) < 2 ^ 63 \<and>
      - (2 ^ 63) \<le> sum_list (map amount rs) + nTransactionFee e \<and>
      sum_list (map amount rs) + nTransactionFee e < 2 ^ 63"
    then have b: "sum64 (AvailableCoins e) = sum_list (AvailableCoins e)"
      by (simp add: sum64_exact)
    from lock_amounts_positive[OF True] have "\<forall>x\<in>set (map amount rs). 0 \<le> x"
      by auto
    with h have t: "sum64 (map amount rs) = sum_list (map amount rs)"
      by (simp add: sum64_exact)
    from h have "add64 (sum_list (map amount rs)) (nTransactionFee e) =
        sum_list (map amount rs) + nTransactionFee e"
      by (simp add: add64_def wrap64_id)
    with 1 b t show "sum_list (map amount rs) + nTransactionFee e \<le> sum_list (AvailableCoins e)"
      by simp
  qed
  have 3: "\<forall>st wtx0 f c.
      EvLOCK2 \<in> set (trace (sendCoins e w rs)) \<and>
      sendmany e rs build_init = Inr st \<and>
      CreateTransaction e (vecSend st) = (False, wtx0, f, c) \<longrightarrow>
      ret (sendCoins e w rs) =
        (if add64 (sum64 (map amount rs)) f > sum64 (AvailableCoins e)
         then SendCoinsReturn2 AmountWithFeeExceedsBalance f
         else SendCoinsReturn1 TransactionCreationFailed) \<and>
      \<not> committed (sendCoins e w rs)"
    using u by (auto simp: sendCoins_locked_def Let_def committed_def)
  have 4: "\<forall>st wtx0 f c.
      EvLOCK2 \<in> set (trace (sendCoins e w rs)) \<and>
      sendmany e rs build_init = Inr st \<and>
      CreateTransaction e (vecSend st) = (True, wtx0, f, c) \<longrightarrow>
      (if AskFee e f
       then EvCommitTransaction (attach_narrations c (mapStealthNarr st) wtx0)
              \<in> set (trace (sendCoins e w rs)) \<and>
            status (ret (sendCoins e w rs)) =
              (if CommitTransaction e (attach_narrations c (mapStealthNarr st) wtx0)
               then OK else TransactionCommitFailed)
       else ret (sendCoins e w rs) = SendCoinsReturn1 Aborted \<and>
            \<not> committed (sendCoins e w rs))"
    using u
    by (auto simp: sendCoins_locked_def Let_def committed_def SendCoinsReturn1_def
        split: prod.splits dest!: update_address_book_trace)
  from True 1 2 3 4 show ?thesis by blast
qed

theorem fee_checks_witness:
  "EvLOCK2 \<in> set (trace (sendCoins env_nocreate w0 [rcp_plain])) \<and>
   add64 (sum64 (map amount [rcp_plain])) (nTransactionFee env_nocreate)
     \<le> sum64 (AvailableCoins env_nocreate) \<and>
   sum_list (map amount [rcp_plain]) + nTransactionFee env_nocreate
     \<le> sum_list (AvailableCoins env_nocreate) \<and>
   sendmany env_nocreate [rcp_plain] build_init =
     Inr \<lparr>vecSend = [([OP_OTHER 0, PUSH ''A1''], 500),
                      ([OP_RETURN, PUSH ''np'', OP_RETURN, PUSH ''hi''], 0)],
          mapStealthNarr = [], nRand = 0\<rparr> \<and>
   ret (sendCoins env_nocreate w0 [rcp_plain]) = SendCoinsReturn2 AmountWithFeeExceedsBalance 600 \<and>
   \<not> committed (sendCoins env_nocreate w0 [rcp_plain]) \<and>
   EvLOCK2 \<in> set (trace (sendCoins env_fee w0 [rcp_plain])) \<and>
   AskFee env_fee 600 \<and>
   status (ret (sendCoins env_fee w0 [rcp_plain])) = OK"
proof -
  let ?st = "\<lparr>vecSend = [([OP_OTHER 0, PUSH ''A1''], 500),
                      ([OP_RETURN, PUSH ''np'', OP_RETURN, PUSH ''hi''], 0)],
          mapStealthNarr = [], nRand = 0\<rparr>"
  have l: "EvLOCK2 \<in> set (trace (sendCoins env_nocreate w0 [rcp_plain]))"
    by (simp add: run_defs env_nocreate_def env0_def w0_def rcp_plain_def)
  have s: "sendmany env_nocreate [rcp_plain] build_init = Inr ?st"
    by (simp add: run_defs env_nocreate_def env0_def rcp_plain_def)
  have c: "CreateTransaction env_nocreate (vecSend ?st) =
      (False, \<lparr>vout = [], mapValue = Map.empty\<rparr>, 600, -1)"
    by (simp add: env_nocreate_def)
  have b: "add64 (sum64 (map amount [rcp_plain])) 600 > sum64 (AvailableCoins env_nocreate)"
    by (simp add: wrap64_def add64_def sum64_def env_nocreate_def env0_def rcp_plain_def)
  have r: "(\<forall>v\<in>set (AvailableCoins env_nocreate). 0 \<le> v) \<and>
    sum_list (AvailableCoins env_nocreate) < 2 ^ 63 \<and>
    sum_list (map amount [rcp_plain]) < 2 ^ 63 \<and>
    - (2 ^ 63) \<le> sum_list (map amount [rcp_plain]) + nTransactionFee env_nocreate \<and>
    sum_list (map amount [rcp_plain]) + nTransactionFee env_nocreate < 2 ^ 63"
    by (simp add: env_nocreate_def env0_def rcp_plain_def)
  have l': "EvLOCK2 \<in> set (trace (sendCoins env_fee w0 [rcp_plain]))"
    by (simp add: run_defs env_fee_def env0_def w0_def rcp_plain_def)
  have s': "sendmany env_fee [rcp_plain] build_init = Inr ?st"
    by (simp add: run_defs env_fee_def env0_def rcp_plain_def)
  have c': "CreateTransaction env_fee (vecSend ?st) =
      (True, \<lparr>vout = vecSend ?st, mapValue = Map.empty\<rparr>, 600, -1)"
    by (simp add: env_fee_def)
  have a': "AskFee env_fee 600" by (simp add: env_fee_def env0_def)
  have k': "CommitTransaction env_fee
      (attach_narrations (-1) (mapStealthNarr ?st) \<lparr>vout = vecSend ?st, mapValue = Map.empty\<rparr>)"
    by (simp add: env_fee_def env0_def)
  note f1 = fee_checks[of env_nocreate w0 "[rcp_plain]"]
  note f2 = fee_checks[of env_fee w0 "[rcp_plain]"]
  from f1 l have p1: "add64 (sum64 (map amount [rcp_plain])) (nTransactionFee env_nocreate)
     \<le> sum64 (AvailableCoins env_nocreate)" by blast
  from f1 l r have p2: "sum_list (map amount [rcp_plain]) + nTransactionFee env_nocreate
     \<le> sum_list (AvailableCoins env_nocreate)" by blast
  from f1 l s c have "ret (sendCoins env_nocreate w0 [rcp_plain]) =
        (if add64 (sum64 (map amount [rcp_plain])) 600 > sum64 (AvailableCoins env_nocreate)
         then SendCoinsReturn2 AmountWithFeeExceedsBalance 600
         else SendCoinsReturn1 TransactionCreationFailed) \<and>
      \<not> committed (sendCoins env_nocreate w0 [rcp_plain])" by blast
  with b have p3: "ret (sendCoins env_nocreate w0 [rcp_plain]) =
      SendCoinsReturn2 AmountWithFeeExceedsBalance 600 \<and>
      \<not> committed (sendCoins env_nocreate w0 [rcp_plain])" by simp
  from f2 l' s' c' have "(if AskFee env_fee 600
       then EvCommitTransaction (attach_narrations (-1) (mapStealthNarr ?st)
                \<lparr>vout = vecSend ?st, mapValue = Map.empty\<rparr>)
              \<in> set (trace (sendCoins env_fee w0 [rcp_plain])) \<and>
            status (ret (sendCoins env_fee w0 [rcp_plain])) =
              (if CommitTransaction env_fee (attach_narrations (-1) (mapStealthNarr ?st)
                    \<lparr>vout = vecSend ?st, mapValue = Map.empty\<rparr>)
               then OK else TransactionCommitFailed)
       else ret (sendCoins env_fee w0 [rcp_plain]) = SendCoinsReturn1 Aborted \<and>
            \<not> committed (sendCoins env_fee w0 [rcp_plain]))" by blast
  with a' k' have p4: "status (ret (sendCoins env_fee w0 [rcp_plain])) = OK" by simp
  from l p1 p2 s p3 l' a' p4 show ?thesis by blast
qed

subsection \<open>C2: the narration of a standard payment\<close>

text \<open>
  As stated, C2 fails: the code appends one output, not two. Its script holds both pushes,
  \<open>OP_RETURN "np" OP_RETURN narration\<close>. The outputs handed to \<open>CreateTransaction\<close> for
  one standard recipient with the narration \<open>hi\<close> are the payment and that one output.
\<close>

theorem one_narration_output:
  "trace (sendCoins env0 w0 [rcp_plain]) ! 3 =
     EvCreateTransaction
       [([OP_OTHER 0, PUSH ''A1''], 500),
        ([OP_RETURN, PUSH ''np'', OP_RETURN, PUSH ''hi''], 0)]"
  by (simp add: run_defs env0_def w0_def rcp_plain_def)

text \<open>
  C2, amended. For a recipient that takes the standard branch (not marked stealth, or
  marked stealth with an address that does not decode) and has a non-empty narration of at
  most 24 raw bytes, \<open>sendCoins\<close> appends, immediately after the recipient's payment
  output, exactly one zero-value output whose script is \<open>OP_RETURN\<close>, the 2-byte tag
  \<open>np\<close>, \<open>OP_RETURN\<close>, the raw narration bytes. Whenever the outputs reach
  \<open>CreateTransaction\<close> the narration was within the limit and the two outputs are
  adjacent in them.
\<close>

theorem standard_narration_output:
  assumes "rcp \<in> set rs"
    and "typeInd rcp \<noteq> AT_Stealth \<or> SetEncoded e (toStdString e (address rcp)) = None"
    and "0 < length (narration rcp)"
  shows "(length (toStdString e (narration rcp)) \<le> 24 \<longrightarrow>
          send_recipient e rcp st = Inr (st\<lparr>vecSend := vecSend st @
            [(SetDestination e (addrGet e (toStdString e (address rcp))), amount rcp),
             ([OP_RETURN, PUSH ''np'', OP_RETURN, PUSH (toStdString e (narration rcp))], 0)]\<rparr>)) \<and>
         (\<forall>outs. EvCreateTransaction outs \<in> set (trace (sendCoins e w rs)) \<longrightarrow>
            length (toStdString e (narration rcp)) \<le> 24 \<and>
            (\<exists>before after. outs = before @
               [(SetDestination e (addrGet e (toStdString e (address rcp))), amount rcp),
                ([OP_RETURN, PUSH ''np'', OP_RETURN, PUSH (toStdString e (narration rcp))], 0)]
               @ after))"
proof (intro conjI allI impI)
  assume "length (toStdString e (narration rcp)) \<le> 24"
  with assms(2,3) show "send_recipient e rcp st = Inr (st\<lparr>vecSend := vecSend st @
            [(SetDestination e (addrGet e (toStdString e (address rcp))), amount rcp),
             ([OP_RETURN, PUSH ''np'', OP_RETURN, PUSH (toStdString e (narration rcp))], 0)]\<rparr>)"
    by (auto simp: send_recipient_def send_normal_def Let_def)
next
  fix outs
  assume c: "EvCreateTransaction outs \<in> set (trace (sendCoins e w rs))"
  from sendCoins_create[OF c] obtain stf where f: "sendmany e rs build_init = Inr stf"
    and o: "outs = vecSend stf" by blast
  from sendmany_split[OF f assms(1)] obtain st1 st2 before after where
    s: "send_recipient e rcp st1 = Inr st2" and b: "vecSend st1 = vecSend build_init @ before"
    and a: "vecSend stf = vecSend st2 @ after" by blast
  from s assms(2) have n: "send_normal e rcp st1 = Inr st2"
    by (auto simp: send_recipient_def Let_def split: if_splits option.splits)
  from send_normal_Inr[OF n] assms(3)
  have v: "vecSend st2 = vecSend st1 @
            [(SetDestination e (addrGet e (toStdString e (address rcp))), amount rcp),
             ([OP_RETURN, PUSH ''np'', OP_RETURN, PUSH (toStdString e (narration rcp))], 0)]"
    and l: "length (toStdString e (narration rcp)) \<le> 24" by auto
  from l show "length (toStdString e (narration rcp)) \<le> 24" .
  from o a v b show "\<exists>before after. outs = before @
               [(SetDestination e (addrGet e (toStdString e (address rcp))), amount rcp),
                ([OP_RETURN, PUSH ''np'', OP_RETURN, PUSH (toStdString e (narration rcp))], 0)]
               @ after"
    by (auto simp: build_init_def)
qed

theorem standard_narration_output_witness:
  "rcp_plain \<in> set [rcp_plain] \<and>
   typeInd rcp_plain \<noteq> AT_Stealth \<and>
   0 < length (narration rcp_plain) \<and>
   EvCreateTransaction
     [([OP_OTHER 0, PUSH ''A1''], 500), ([OP_RETURN, PUSH ''np'', OP_RETURN, PUSH ''hi''], 0)]
     \<in> set (trace (sendCoins env0 w0 [rcp_plain])) \<and>
   length (toStdString env0 (narration rcp_plain)) \<le> 24 \<and>
   (\<exists>before after.
      [([OP_OTHER 0, PUSH ''A1''], 500), ([OP_RETURN, PUSH ''np'', OP_RETURN, PUSH ''hi''], 0)] =
      before @
      [(SetDestination env0 (addrGet env0 (toStdString env0 (address rcp_plain))), amount rcp_plain),
       ([OP_RETURN, PUSH ''np'', OP_RETURN, PUSH (toStdString env0 (narration rcp_plain))], 0)]
      @ after)"
proof -
  have m: "rcp_plain \<in> set [rcp_plain]" by simp
  have t: "typeInd rcp_plain \<noteq> AT_Stealth \<or>
      SetEncoded env0 (toStdString env0 (address rcp_plain)) = None"
    by (simp add: rcp_plain_def)
  have n: "0 < length (narration rcp_plain)" by (simp add: rcp_plain_def)
  have c: "EvCreateTransaction
     [([OP_OTHER 0, PUSH ''A1''], 500), ([OP_RETURN, PUSH ''np'', OP_RETURN, PUSH ''hi''], 0)]
     \<in> set (trace (sendCoins env0 w0 [rcp_plain]))"
    by (simp add: run_defs env0_def w0_def rcp_plain_def)
  have t': "typeInd rcp_plain \<noteq> AT_Stealth" by (simp add: rcp_plain_def)
  from standard_narration_output[OF m t n, of build_init w0] c m t' n show ?thesis by blast
qed

subsection \<open>C10: a stealth recipient whose address does not decode\<close>

text \<open>
  C10. A recipient marked as stealth whose address fails \<open>SetEncoded\<close> is processed
  exactly as the same recipient not marked as stealth: the failure itself produces no
  error (the only error the recipient can still produce is \<open>NarrationTooLong\<close>, for a
  narration of more than 24 bytes, as for any standard recipient), and the output built
  for it is the standard payment output to \<open>CBitcoinAddress(sAddr).Get()\<close>, which is
  among the outputs handed to \<open>CreateTransaction\<close>.
\<close>

theorem stealth_decode_failure:
  assumes "typeInd rcp = AT_Stealth"
    and "SetEncoded e (toStdString e (address rcp)) = None"
  shows "send_recipient e rcp st = send_recipient e (rcp\<lparr>typeInd := AT_Normal\<rparr>) st \<and>
     (\<forall>err. send_recipient e rcp st = Inl err \<longrightarrow>
        err = NarrationTooLong \<and> 0 < length (narration rcp) \<and>
        24 < length (toStdString e (narration rcp))) \<and>
     (\<forall>st'. send_recipient e rcp st = Inr st' \<longrightarrow>
        (\<exists>suf. vecSend st' = vecSend st @
           (SetDestination e (addrGet e (toStdString e (address rcp))), amount rcp) # suf)) \<and>
     (\<forall>outs. rcp \<in> set rs \<and> EvCreateTransaction outs \<in> set (trace (sendCoins e w rs)) \<longrightarrow>
        (SetDestination e (addrGet e (toStdString e (address rcp))), amount rcp) \<in> set outs)"
proof -
  have n: "\<And>s. send_recipient e rcp s = send_normal e rcp s"
    using assms by (simp add: send_recipient_def Let_def)
  have 1: "send_recipient e rcp st = send_recipient e (rcp\<lparr>typeInd := AT_Normal\<rparr>) st"
    using assms by (simp add: send_recipient_def send_normal_def Let_def)
  have 2: "\<forall>err. send_recipient e rcp st = Inl err \<longrightarrow>
        err = NarrationTooLong \<and> 0 < length (narration rcp) \<and>
        24 < length (toStdString e (narration rcp))"
    by (auto simp: n send_normal_def Let_def split: if_splits)
  have 3: "\<forall>st'. send_recipient e rcp st = Inr st' \<longrightarrow>
        (\<exists>suf. vecSend st' = vecSend st @
           (SetDestination e (addrGet e (toStdString e (address rcp))), amount rcp) # suf)"
    by (auto simp: n dest!: send_normal_Inr)
  have 4: "\<forall>outs. rcp \<in> set rs \<and> EvCreateTransaction outs \<in> set (trace (sendCoins e w rs)) \<longrightarrow>
        (SetDestination e (addrGet e (toStdString e (address rcp))), amount rcp) \<in> set outs"
  proof (intro allI impI, elim conjE)
    fix outs
    assume m: "rcp \<in> set rs" and c: "EvCreateTransaction outs \<in> set (trace (sendCoins e w rs))"
    from sendCoins_create[OF c] obtain stf where f: "sendmany e rs build_init = Inr stf"
      and o: "outs = vecSend stf" by blast
    from sendmany_split[OF f m] obtain st1 st2 before after where
      s: "send_recipient e rcp st1 = Inr st2"
      and a: "vecSend stf = vecSend st2 @ after" by blast
    from s have "send_normal e rcp st1 = Inr st2" by (simp add: n)
    from send_normal_Inr[OF this] a o
    show "(SetDestination e (addrGet e (toStdString e (address rcp))), amount rcp) \<in> set outs"
      by auto
  qed
  from 1 2 3 4 show ?thesis by blast
qed

theorem stealth_decode_failure_witness:
  "typeInd rcp_marked = AT_Stealth \<and>
   SetEncoded env0 (toStdString env0 (address rcp_marked)) = None \<and>
   send_recipient env0 rcp_marked build_init =
     send_recipient env0 (rcp_marked\<lparr>typeInd := AT_Normal\<rparr>) build_init \<and>
   rcp_marked \<in> set [rcp_marked] \<and>
   EvCreateTransaction [([OP_OTHER 0, PUSH ''B2''], 200)]
     \<in> set (trace (sendCoins env0 w0 [rcp_marked])) \<and>
   (SetDestination env0 (addrGet env0 (toStdString env0 (address rcp_marked))), amount rcp_marked)
     \<in> set [([OP_OTHER 0, PUSH ''B2''], 200)]"
proof -
  have t: "typeInd rcp_marked = AT_Stealth" by (simp add: rcp_marked_def)
  have d: "SetEncoded env0 (toStdString env0 (address rcp_marked)) = None"
    by (simp add: env0_def rcp_marked_def)
  have m: "rcp_marked \<in> set [rcp_marked]" by simp
  have c: "EvCreateTransaction [([OP_OTHER 0, PUSH ''B2''], 200)]
     \<in> set (trace (sendCoins env0 w0 [rcp_marked]))"
    by (simp add: run_defs env0_def w0_def rcp_marked_def)
  from stealth_decode_failure[OF t d, of build_init "[rcp_marked]" w0] t d m c
  show ?thesis by blast
qed

subsection \<open>C6: the two outputs of a stealth payment\<close>

text \<open>
  C6. Take a recipient marked as stealth whose address decodes. Every successful
  processing of it appends exactly two outputs: the payment output carrying the
  recipient's amount, paid to the destination of the derived key, immediately followed by
  one zero-value output whose script starts with \<open>OP_RETURN\<close> and the push of the ephemeral
  public key. In the outputs handed to \<open>CreateTransaction\<close> the two stand at the positions
  \<open>p\<close> and \<open>p + 1\<close>, where \<open>p\<close> is the number of outputs built for the recipients before
  this one. For every candidate change position the change output is not put between
  them: after the insertion the same two outputs stand next to each other, one position
  up when the change output went in at or before \<open>p\<close>, and where they were otherwise.
\<close>

theorem stealth_pair:
  assumes "typeInd rcp = AT_Stealth"
    and "SetEncoded e (toStdString e (address rcp)) = Some sx"
  shows "(\<forall>st st'. send_recipient e rcp st = Inr st' \<longrightarrow>
            (\<exists>sec shared pk eph scr.
               GenerateRandomSecret e (nRand st) = Some sec \<and>
               StealthSecret e sec (scan_pubkey sx) (spend_pubkey sx) = Some (shared, pk) \<and>
               pubkeyIsValid e pk \<and>
               SecretToPublicKey e sec = Some eph \<and>
               take 2 scr = [OP_RETURN, PUSH eph] \<and>
               vecSend st' =
                 vecSend st @ [(SetDestination e (pubkeyDest e pk), amount rcp), (scr, 0)])) \<and>
         (\<forall>pre post outs.
            EvCreateTransaction outs \<in> set (trace (sendCoins e w (pre @ rcp # post))) \<longrightarrow>
            (\<exists>st1 sec shared pk eph scr.
               sendmany e pre build_init = Inr st1 \<and>
               GenerateRandomSecret e (nRand st1) = Some sec \<and>
               StealthSecret e sec (scan_pubkey sx) (spend_pubkey sx) = Some (shared, pk) \<and>
               SecretToPublicKey e sec = Some eph \<and>
               take 2 scr = [OP_RETURN, PUSH eph] \<and>
               length (vecSend st1) + 1 < length outs \<and>
               outs ! length (vecSend st1) = (SetDestination e (pubkeyDest e pk), amount rcp) \<and>
               outs ! (length (vecSend st1) + 1) = (scr, 0) \<and>
               (\<forall>c chg. c \<le> length outs \<longrightarrow>
                  change_pos c outs \<noteq> length (vecSend st1) + 1 \<and>
                  insert_change c chg outs !
                    (if change_pos c outs \<le> length (vecSend st1)
                     then length (vecSend st1) + 1 else length (vecSend st1)) =
                    (SetDestination e (pubkeyDest e pk), amount rcp) \<and>
                  insert_change c chg outs !
                    (if change_pos c outs \<le> length (vecSend st1)
                     then length (vecSend st1) + 2 else length (vecSend st1) + 1) =
                    (scr, 0))))"
proof (intro conjI allI impI)
  fix st st'
  assume "send_recipient e rcp st = Inr st'"
  with assms have "send_stealth e rcp sx st = Inr st'"
    by (simp add: send_recipient_def Let_def)
  from send_stealth_Inr[OF this]
  show "\<exists>sec shared pk eph scr.
               GenerateRandomSecret e (nRand st) = Some sec \<and>
               StealthSecret e sec (scan_pubkey sx) (spend_pubkey sx) = Some (shared, pk) \<and>
               pubkeyIsValid e pk \<and>
               SecretToPublicKey e sec = Some eph \<and>
               take 2 scr = [OP_RETURN, PUSH eph] \<and>
               vecSend st' =
                 vecSend st @ [(SetDestination e (pubkeyDest e pk), amount rcp), (scr, 0)]" .
next
  fix pre post outs
  assume c: "EvCreateTransaction outs \<in> set (trace (sendCoins e w (pre @ rcp # post)))"
  from sendCoins_create[OF c] obtain stf where
    f: "sendmany e (pre @ rcp # post) build_init = Inr stf"
    and o: "outs = vecSend stf" by blast
  from sendmany_split_at[OF f] obtain st1 st2 after where
    p: "sendmany e pre build_init = Inr st1"
    and s: "send_recipient e rcp st1 = Inr st2"
    and a: "vecSend stf = vecSend st2 @ after" by blast
  from s assms have n: "send_stealth e rcp sx st1 = Inr st2"
    by (simp add: send_recipient_def Let_def)
  from send_stealth_Inr[OF n] obtain sec shared pk eph scr where
    g: "GenerateRandomSecret e (nRand st1) = Some sec"
    and ss: "StealthSecret e sec (scan_pubkey sx) (spend_pubkey sx) = Some (shared, pk)"
    and sp: "SecretToPublicKey e sec = Some eph"
    and t: "take 2 scr = [OP_RETURN, PUSH eph]"
    and v: "vecSend st2 =
        vecSend st1 @ [(SetDestination e (pubkeyDest e pk), amount rcp), (scr, 0)]"
    by blast
  let ?p = "length (vecSend st1)"
  let ?pay = "(SetDestination e (pubkeyDest e pk), amount rcp)"
  from o a v have outs: "outs = vecSend st1 @ [?pay, (scr, 0)] @ after" by simp
  from outs have len: "?p + 1 < length outs" by simp
  from outs have n0: "outs ! ?p = ?pay" by (simp add: nth_append)
  from outs have n1: "outs ! (?p + 1) = (scr, 0)" by (simp add: nth_append)
  have ins: "\<forall>c chg. c \<le> length outs \<longrightarrow>
                  change_pos c outs \<noteq> ?p + 1 \<and>
                  insert_change c chg outs !
                    (if change_pos c outs \<le> ?p then ?p + 1 else ?p) = ?pay \<and>
                  insert_change c chg outs !
                    (if change_pos c outs \<le> ?p then ?p + 2 else ?p + 1) = (scr, 0)"
  proof (intro allI impI)
    fix c chg
    assume cl: "c \<le> length outs"
    from n1 have z: "snd (outs ! (?p + 1)) = 0" by simp
    have ne: "change_pos c outs \<noteq> ?p + 1"
      by (rule change_pos_off_zero_value[OF _ len z]) simp
    from change_pos_le[OF cl] have al: "change_pos c outs \<le> length outs" .
    show "change_pos c outs \<noteq> ?p + 1 \<and>
                  insert_change c chg outs !
                    (if change_pos c outs \<le> ?p then ?p + 1 else ?p) = ?pay \<and>
                  insert_change c chg outs !
                    (if change_pos c outs \<le> ?p then ?p + 2 else ?p + 1) = (scr, 0)"
    proof (cases "change_pos c outs \<le> ?p")
      case True
      from insert_before_pair[OF True len, of chg] n0 n1 ne True show ?thesis
        by (simp add: insert_change_def)
    next
      case False
      with ne have "?p + 2 \<le> change_pos c outs" by simp
      from insert_after_pair[OF this al, of chg] n0 n1 ne False show ?thesis
        by (simp add: insert_change_def)
    qed
  qed
  from p g ss sp t len n0 n1 ins
  show "\<exists>st1 sec shared pk eph scr.
               sendmany e pre build_init = Inr st1 \<and>
               GenerateRandomSecret e (nRand st1) = Some sec \<and>
               StealthSecret e sec (scan_pubkey sx) (spend_pubkey sx) = Some (shared, pk) \<and>
               SecretToPublicKey e sec = Some eph \<and>
               take 2 scr = [OP_RETURN, PUSH eph] \<and>
               length (vecSend st1) + 1 < length outs \<and>
               outs ! length (vecSend st1) = (SetDestination e (pubkeyDest e pk), amount rcp) \<and>
               outs ! (length (vecSend st1) + 1) = (scr, 0) \<and>
               (\<forall>c chg. c \<le> length outs \<longrightarrow>
                  change_pos c outs \<noteq> length (vecSend st1) + 1 \<and>
                  insert_change c chg outs !
                    (if change_pos c outs \<le> length (vecSend st1)
                     then length (vecSend st1) + 1 else length (vecSend st1)) =
                    (SetDestination e (pubkeyDest e pk), amount rcp) \<and>
                  insert_change c chg outs !
                    (if change_pos c outs \<le> length (vecSend st1)
                     then length (vecSend st1) + 2 else length (vecSend st1) + 1) =
                    (scr, 0))"
    by blast
qed

text \<open>
  Two stealth recipients, and the candidate change position 3, which is the position of the
  second recipient's data-carrier output: the change output goes in at position 2, before
  the second pair, which then stands at the positions 3 and 4.
\<close>

theorem stealth_pair_witness:
  "typeInd rcp_stealth2 = AT_Stealth \<and>
   SetEncoded env0 (toStdString env0 (address rcp_stealth2)) =
     Some \<lparr>scan_pubkey = ''scan'', spend_pubkey = ''spend''\<rparr> \<and>
   EvCreateTransaction
     [([OP_OTHER 0, PUSH ''pk''], 300),
      ([OP_RETURN, PUSH ''ephem'', OP_RETURN, PUSH ''yoyo''], 0),
      ([OP_OTHER 0, PUSH ''pk''], 200),
      ([OP_RETURN, PUSH ''ephem''], 0)]
     \<in> set (trace (sendCoins env0 w0 ([rcp_stealth] @ rcp_stealth2 # []))) \<and>
   insert_change 3 ([OP_OTHER 1], 490)
     [([OP_OTHER 0, PUSH ''pk''], 300),
      ([OP_RETURN, PUSH ''ephem'', OP_RETURN, PUSH ''yoyo''], 0),
      ([OP_OTHER 0, PUSH ''pk''], 200),
      ([OP_RETURN, PUSH ''ephem''], 0)] ! 3 = ([OP_OTHER 0, PUSH ''pk''], 200) \<and>
   insert_change 3 ([OP_OTHER 1], 490)
     [([OP_OTHER 0, PUSH ''pk''], 300),
      ([OP_RETURN, PUSH ''ephem'', OP_RETURN, PUSH ''yoyo''], 0),
      ([OP_OTHER 0, PUSH ''pk''], 200),
      ([OP_RETURN, PUSH ''ephem''], 0)] ! 4 = ([OP_RETURN, PUSH ''ephem''], 0)"
proof -
  let ?outs = "[([OP_OTHER 0, PUSH ''pk''], 300),
      ([OP_RETURN, PUSH ''ephem'', OP_RETURN, PUSH ''yoyo''], 0),
      ([OP_OTHER 0, PUSH ''pk''], 200),
      ([OP_RETURN, PUSH ''ephem''], 0)] :: CTxOut list"
  let ?chg = "([OP_OTHER 1], 490) :: CTxOut"
  have t: "typeInd rcp_stealth2 = AT_Stealth" by (simp add: rcp_stealth2_def)
  have d: "SetEncoded env0 (toStdString env0 (address rcp_stealth2)) =
     Some \<lparr>scan_pubkey = ''scan'', spend_pubkey = ''spend''\<rparr>"
    by (simp add: env0_def rcp_stealth2_def)
  have c: "EvCreateTransaction ?outs
     \<in> set (trace (sendCoins env0 w0 ([rcp_stealth] @ rcp_stealth2 # [])))"
    by (simp add: run_defs env0_def w0_def rcp_stealth_def rcp_stealth2_def)
  have s: "sendmany env0 [rcp_stealth] build_init =
      Inr \<lparr>vecSend = [([OP_OTHER 0, PUSH ''pk''], 300),
                       ([OP_RETURN, PUSH ''ephem'', OP_RETURN, PUSH ''yoyo''], 0)],
           mapStealthNarr = [(0, ''yo'')], nRand = 1\<rparr>"
    by (simp add: run_defs env0_def rcp_stealth_def)
  have cp: "change_pos 3 ?outs = 2"
    by (simp add: change_pos_def eval_nat_numeral)
  from stealth_pair[OF t d, of w0] c obtain st1 sec shared pk eph scr where
    p: "sendmany env0 [rcp_stealth] build_init = Inr st1"
    and ss: "StealthSecret env0 sec (scan_pubkey \<lparr>scan_pubkey = ''scan'', spend_pubkey = ''spend''\<rparr>)
        (spend_pubkey \<lparr>scan_pubkey = ''scan'', spend_pubkey = ''spend''\<rparr>) = Some (shared, pk)"
    and sp: "SecretToPublicKey env0 sec = Some eph"
    and n1: "?outs ! (length (vecSend st1) + 1) = (scr, 0)"
    and ins: "\<forall>c chg. c \<le> length ?outs \<longrightarrow>
                  change_pos c ?outs \<noteq> length (vecSend st1) + 1 \<and>
                  insert_change c chg ?outs !
                    (if change_pos c ?outs \<le> length (vecSend st1)
                     then length (vecSend st1) + 1 else length (vecSend st1)) =
                    (SetDestination env0 (pubkeyDest env0 pk), amount rcp_stealth2) \<and>
                  insert_change c chg ?outs !
                    (if change_pos c ?outs \<le> length (vecSend st1)
                     then length (vecSend st1) + 2 else length (vecSend st1) + 1) =
                    (scr, 0)"
    by blast
  from p s have l: "length (vecSend st1) = 2" by simp
  from ss have pk: "pk = ''pk''" by (simp add: env0_def)
  from n1 l have scr: "scr = [OP_RETURN, PUSH ''ephem'']" by simp
  from ins have "insert_change 3 ?chg ?outs !
                    (if change_pos 3 ?outs \<le> length (vecSend st1)
                     then length (vecSend st1) + 1 else length (vecSend st1)) =
                    (SetDestination env0 (pubkeyDest env0 pk), amount rcp_stealth2) \<and>
                  insert_change 3 ?chg ?outs !
                    (if change_pos 3 ?outs \<le> length (vecSend st1)
                     then length (vecSend st1) + 2 else length (vecSend st1) + 1) =
                    (scr, 0)"
    by simp
  with l cp pk scr have "insert_change 3 ?chg ?outs ! 3 = ([OP_OTHER 0, PUSH ''pk''], 200) \<and>
      insert_change 3 ?chg ?outs ! 4 = ([OP_RETURN, PUSH ''ephem''], 0)"
    by (simp add: env0_def rcp_stealth2_def)
  with t d c show ?thesis by blast
qed

subsection \<open>C7: narrations that are too long\<close>

text \<open>
  As stated, C7 fails: the length of a stealth recipient's narration is checked after the
  ephemeral key was drawn and the keys were derived, so a failure there wins. With a
  randomness source that fails, a stealth recipient with a narration of 25 bytes yields
  \<open>Aborted\<close>.
\<close>

theorem long_narration_Aborted:
  "24 < length (toStdString env_norandom (narration rcp_stealth_long)) \<and>
   status (ret (sendCoins env_norandom w0 [rcp_stealth_long])) = Aborted"
  by (simp add: run_defs env_norandom_def env0_def w0_def rcp_stealth_long_def)

text \<open>
  C7, amended. Take a run that passed the pre-checks and took the lock, and the first
  recipient that fails, its narration not empty. If the narration has more than 24 raw
  bytes, the result is \<open>NarrationTooLong\<close> when the recipient takes the standard branch,
  and also when it takes the stealth branch and the key derivation succeeded (random
  secret, shared secret, valid derived key, ephemeral public key); no hypothesis is made on
  the encryption, which runs after the length check. On the stealth branch, with the keys
  derived and a narration of at most 24 bytes, a failing encryption or a ciphertext of more
  than 48 bytes yields \<open>Aborted\<close>.
\<close>

theorem narration_length_check:
  assumes "EvLOCK2 \<in> set (trace (sendCoins e w (pre @ rcp # post)))"
    and "sendmany e pre build_init = Inr st1"
    and "0 < length (narration rcp)"
  shows "(24 < length (toStdString e (narration rcp)) \<and>
          (typeInd rcp \<noteq> AT_Stealth \<or> SetEncoded e (toStdString e (address rcp)) = None) \<longrightarrow>
            status (ret (sendCoins e w (pre @ rcp # post))) = NarrationTooLong) \<and>
         (\<forall>sx sec shared pk eph.
            typeInd rcp = AT_Stealth \<and>
            SetEncoded e (toStdString e (address rcp)) = Some sx \<and>
            GenerateRandomSecret e (nRand st1) = Some sec \<and>
            StealthSecret e sec (scan_pubkey sx) (spend_pubkey sx) = Some (shared, pk) \<and>
            pubkeyIsValid e pk \<and>
            SecretToPublicKey e sec = Some eph \<longrightarrow>
            (24 < length (toStdString e (narration rcp)) \<longrightarrow>
               status (ret (sendCoins e w (pre @ rcp # post))) = NarrationTooLong) \<and>
            (length (toStdString e (narration rcp)) \<le> 24 \<and>
             (case Encrypt e shared eph (toStdString e (narration rcp)) of
                None \<Rightarrow> True | Some vchNarr \<Rightarrow> 48 < length vchNarr) \<longrightarrow>
               status (ret (sendCoins e w (pre @ rcp # post))) = Aborted))"
proof -
  have st: "\<And>err. send_recipient e rcp st1 = Inl err \<Longrightarrow>
      status (ret (sendCoins e w (pre @ rcp # post))) = err"
    using sendCoins_lock_reached[OF assms(1)] sendmany_first_failure[OF assms(2)]
      sendCoins_locked_Inl by metis
  have a: "24 < length (toStdString e (narration rcp)) \<and>
          (typeInd rcp \<noteq> AT_Stealth \<or> SetEncoded e (toStdString e (address rcp)) = None) \<longrightarrow>
            status (ret (sendCoins e w (pre @ rcp # post))) = NarrationTooLong"
  proof
    assume h: "24 < length (toStdString e (narration rcp)) \<and>
          (typeInd rcp \<noteq> AT_Stealth \<or> SetEncoded e (toStdString e (address rcp)) = None)"
    with assms(3) have "send_recipient e rcp st1 = Inl NarrationTooLong"
      by (auto simp: send_recipient_def send_normal_def Let_def)
    then show "status (ret (sendCoins e w (pre @ rcp # post))) = NarrationTooLong" by (rule st)
  qed
  have b: "\<forall>sx sec shared pk eph.
            typeInd rcp = AT_Stealth \<and>
            SetEncoded e (toStdString e (address rcp)) = Some sx \<and>
            GenerateRandomSecret e (nRand st1) = Some sec \<and>
            StealthSecret e sec (scan_pubkey sx) (spend_pubkey sx) = Some (shared, pk) \<and>
            pubkeyIsValid e pk \<and>
            SecretToPublicKey e sec = Some eph \<longrightarrow>
            (24 < length (toStdString e (narration rcp)) \<longrightarrow>
               status (ret (sendCoins e w (pre @ rcp # post))) = NarrationTooLong) \<and>
            (length (toStdString e (narration rcp)) \<le> 24 \<and>
             (case Encrypt e shared eph (toStdString e (narration rcp)) of
                None \<Rightarrow> True | Some vchNarr \<Rightarrow> 48 < length vchNarr) \<longrightarrow>
               status (ret (sendCoins e w (pre @ rcp # post))) = Aborted)"
  proof (intro allI impI conjI)
    fix sx sec shared pk eph
    assume k: "typeInd rcp = AT_Stealth \<and>
            SetEncoded e (toStdString e (address rcp)) = Some sx \<and>
            GenerateRandomSecret e (nRand st1) = Some sec \<and>
            StealthSecret e sec (scan_pubkey sx) (spend_pubkey sx) = Some (shared, pk) \<and>
            pubkeyIsValid e pk \<and>
            SecretToPublicKey e sec = Some eph"
    {
      assume "24 < length (toStdString e (narration rcp))"
      with k assms(3) have "send_recipient e rcp st1 = Inl NarrationTooLong"
        by (simp add: send_recipient_def send_stealth_def Let_def)
      then show "status (ret (sendCoins e w (pre @ rcp # post))) = NarrationTooLong" by (rule st)
    }
    {
      assume "length (toStdString e (narration rcp)) \<le> 24 \<and>
             (case Encrypt e shared eph (toStdString e (narration rcp)) of
                None \<Rightarrow> True | Some vchNarr \<Rightarrow> 48 < length vchNarr)"
      with k assms(3) have "send_recipient e rcp st1 = Inl Aborted"
        by (auto simp: send_recipient_def send_stealth_def Let_def split: option.splits)
      then show "status (ret (sendCoins e w (pre @ rcp # post))) = Aborted" by (rule st)
    }
  qed
  from a b show ?thesis by blast
qed

theorem narration_length_check_witness:
  "EvLOCK2 \<in> set (trace (sendCoins env0 w0 [rcp_stealth_long])) \<and>
   0 < length (narration rcp_stealth_long) \<and>
   24 < length (toStdString env0 (narration rcp_stealth_long)) \<and>
   status (ret (sendCoins env0 w0 [rcp_stealth_long])) = NarrationTooLong \<and>
   EvLOCK2 \<in> set (trace (sendCoins env0 w0 [rcp_long])) \<and>
   status (ret (sendCoins env0 w0 [rcp_long])) = NarrationTooLong \<and>
   EvLOCK2 \<in> set (trace (sendCoins env_nocrypt w0 [rcp_stealth])) \<and>
   length (toStdString env_nocrypt (narration rcp_stealth)) \<le> 24 \<and>
   Encrypt env_nocrypt ''shared'' ''ephem'' (toStdString env_nocrypt (narration rcp_stealth)) = None \<and>
   status (ret (sendCoins env_nocrypt w0 [rcp_stealth])) = Aborted"
proof -
  have i: "sendmany e [] build_init = Inr build_init" for e by simp
  have l1: "EvLOCK2 \<in> set (trace (sendCoins env0 w0 ([] @ rcp_stealth_long # [])))"
    by (simp add: run_defs env0_def w0_def rcp_stealth_long_def)
  have n1: "0 < length (narration rcp_stealth_long)" by (simp add: rcp_stealth_long_def)
  have k1: "typeInd rcp_stealth_long = AT_Stealth \<and>
      SetEncoded env0 (toStdString env0 (address rcp_stealth_long)) =
        Some \<lparr>scan_pubkey = ''scan'', spend_pubkey = ''spend''\<rparr> \<and>
      GenerateRandomSecret env0 (nRand build_init) = Some ''secret'' \<and>
      StealthSecret env0 ''secret'' (scan_pubkey \<lparr>scan_pubkey = ''scan'', spend_pubkey = ''spend''\<rparr>)
        (spend_pubkey \<lparr>scan_pubkey = ''scan'', spend_pubkey = ''spend''\<rparr>) = Some (''shared'', ''pk'') \<and>
      pubkeyIsValid env0 ''pk'' \<and>
      SecretToPublicKey env0 ''secret'' = Some ''ephem''"
    by (simp add: env0_def rcp_stealth_long_def)
  have g1: "24 < length (toStdString env0 (narration rcp_stealth_long))"
    by (simp add: env0_def rcp_stealth_long_def)
  from narration_length_check[OF l1 i n1] k1 g1
  have r1: "status (ret (sendCoins env0 w0 [rcp_stealth_long])) = NarrationTooLong"
    by auto
  have l2: "EvLOCK2 \<in> set (trace (sendCoins env0 w0 ([] @ rcp_long # [])))"
    by (simp add: run_defs env0_def w0_def rcp_long_def)
  have n2: "0 < length (narration rcp_long)" by (simp add: rcp_long_def)
  have k2: "24 < length (toStdString env0 (narration rcp_long)) \<and>
      (typeInd rcp_long \<noteq> AT_Stealth \<or>
       SetEncoded env0 (toStdString env0 (address rcp_long)) = None)"
    by (simp add: env0_def rcp_long_def)
  from narration_length_check[OF l2 i n2] k2
  have r2: "status (ret (sendCoins env0 w0 [rcp_long])) = NarrationTooLong"
    by auto
  have l3: "EvLOCK2 \<in> set (trace (sendCoins env_nocrypt w0 ([] @ rcp_stealth # [])))"
    by (simp add: run_defs env_nocrypt_def env0_def w0_def rcp_stealth_def)
  have n3: "0 < length (narration rcp_stealth)" by (simp add: rcp_stealth_def)
  have k3: "typeInd rcp_stealth = AT_Stealth \<and>
      SetEncoded env_nocrypt (toStdString env_nocrypt (address rcp_stealth)) =
        Some \<lparr>scan_pubkey = ''scan'', spend_pubkey = ''spend''\<rparr> \<and>
      GenerateRandomSecret env_nocrypt (nRand build_init) = Some ''secret'' \<and>
      StealthSecret env_nocrypt ''secret''
        (scan_pubkey \<lparr>scan_pubkey = ''scan'', spend_pubkey = ''spend''\<rparr>)
        (spend_pubkey \<lparr>scan_pubkey = ''scan'', spend_pubkey = ''spend''\<rparr>) = Some (''shared'', ''pk'') \<and>
      pubkeyIsValid env_nocrypt ''pk'' \<and>
      SecretToPublicKey env_nocrypt ''secret'' = Some ''ephem''"
    by (simp add: env_nocrypt_def env0_def rcp_stealth_def)
  have g3: "length (toStdString env_nocrypt (narration rcp_stealth)) \<le> 24"
    by (simp add: env_nocrypt_def env0_def rcp_stealth_def)
  have e3: "Encrypt env_nocrypt ''shared'' ''ephem''
      (toStdString env_nocrypt (narration rcp_stealth)) = None"
    by (simp add: env_nocrypt_def env0_def)
  from narration_length_check[OF l3 i n3] k3 g3 e3
  have r3: "status (ret (sendCoins env_nocrypt w0 [rcp_stealth])) = Aborted"
    by auto
  from l1 n1 g1 r1 l2 r2 l3 g3 e3 r3 show ?thesis by simp
qed

subsection \<open>C4: the positions of the narration keys\<close>

text \<open>
  C4. Whenever \<open>sendCoins\<close> commits a transaction, every narration collected in
  \<open>mapStealthNarr\<close> at the output position \<open>p\<close> (a position in \<open>vecSend\<close>, before the
  change output is inserted) is attached to the committed transaction under the key
  \<open>n_\<close> followed by \<open>p + 1\<close> when a change output exists (\<open>nChangePos > -1\<close>) and \<open>p\<close> is
  greater than or equal to the change position, and by \<open>p\<close> otherwise.
\<close>

theorem narration_key_position:
  assumes "EvCommitTransaction wtx \<in> set (trace (sendCoins e w rs))"
  shows "\<exists>st wtx0 f nChangePos.
           sendmany e rs build_init = Inr st \<and>
           CreateTransaction e (vecSend st) = (True, wtx0, f, nChangePos) \<and>
           (\<forall>p s. (p, s) \<in> set (mapStealthNarr st) \<longrightarrow>
              mapValue wtx (snprintf_n_u (if nChangePos > -1 \<and> p \<ge> nChangePos then p + 1 else p))
                = Some s)"
proof -
  from sendCoins_commit[OF assms] obtain st wtx0 f c where
    s: "sendmany e rs build_init = Inr st"
    and c: "CreateTransaction e (vecSend st) = (True, wtx0, f, c)"
    and w: "wtx = attach_narrations c (mapStealthNarr st) wtx0" by blast
  have "narr_inv build_init" by (simp add: narr_inv_def build_init_def)
  from sendmany_inv[OF this s] have so: "sorted_wrt (<) (map fst (mapStealthNarr st))"
    and nn: "\<forall>q\<in>set (map fst (mapStealthNarr st)). 0 \<le> q"
    by (auto simp: narr_inv_def list_all_iff)
  from so have d: "distinct (map fst (mapStealthNarr st))"
    by (simp add: strict_sorted_iff)
  have "\<forall>p s. (p, s) \<in> set (mapStealthNarr st) \<longrightarrow>
              mapValue wtx (snprintf_n_u (if c > -1 \<and> p \<ge> c then p + 1 else p)) = Some s"
    using attach_entry[OF d nn, of _ _ c wtx0] w by (simp add: shifted_pos_def)
  with s c show ?thesis by blast
qed

theorem narration_key_position_witness:
  "EvCommitTransaction
     \<lparr>vout = [([OP_OTHER 1], 690), ([OP_OTHER 0, PUSH ''pk''], 300),
              ([OP_RETURN, PUSH ''ephem'', OP_RETURN, PUSH ''yoyo''], 0)],
      mapValue = [''n_1'' \<mapsto> ''yo'']\<rparr>
     \<in> set (trace (sendCoins env_change w0 [rcp_stealth])) \<and>
   sendmany env_change [rcp_stealth] build_init =
     Inr \<lparr>vecSend = [([OP_OTHER 0, PUSH ''pk''], 300),
                      ([OP_RETURN, PUSH ''ephem'', OP_RETURN, PUSH ''yoyo''], 0)],
          mapStealthNarr = [(0, ''yo'')], nRand = 1\<rparr> \<and>
   mapValue
     \<lparr>vout = [([OP_OTHER 1], 690), ([OP_OTHER 0, PUSH ''pk''], 300),
              ([OP_RETURN, PUSH ''ephem'', OP_RETURN, PUSH ''yoyo''], 0)],
      mapValue = [''n_1'' \<mapsto> ''yo'']\<rparr>
     (snprintf_n_u (0 + 1)) = Some ''yo''"
proof -
  let ?wtx = "\<lparr>vout = [([OP_OTHER 1], 690), ([OP_OTHER 0, PUSH ''pk''], 300),
              ([OP_RETURN, PUSH ''ephem'', OP_RETURN, PUSH ''yoyo''], 0)],
      mapValue = [''n_1'' \<mapsto> ''yo'']\<rparr>"
  let ?st = "\<lparr>vecSend = [([OP_OTHER 0, PUSH ''pk''], 300),
                      ([OP_RETURN, PUSH ''ephem'', OP_RETURN, PUSH ''yoyo''], 0)],
          mapStealthNarr = [(0, ''yo'')], nRand = 1\<rparr>"
  have c: "EvCommitTransaction ?wtx \<in> set (trace (sendCoins env_change w0 [rcp_stealth]))"
    by (simp add: run_defs env_change_def env0_def w0_def rcp_stealth_def insert_change_def
        change_pos_def shifted_pos_def snprintf_n_u_def dec.simps digit_def)
  have s: "sendmany env_change [rcp_stealth] build_init = Inr ?st"
    by (simp add: run_defs env_change_def env0_def rcp_stealth_def)
  from narration_key_position[OF c] obtain st wtx0 f nChangePos where
    s': "sendmany env_change [rcp_stealth] build_init = Inr st"
    and ct: "CreateTransaction env_change (vecSend st) = (True, wtx0, f, nChangePos)"
    and k: "\<forall>p s. (p, s) \<in> set (mapStealthNarr st) \<longrightarrow>
              mapValue ?wtx (snprintf_n_u (if nChangePos > -1 \<and> p \<ge> nChangePos then p + 1 else p))
                = Some s"
    by blast
  from s s' have st: "st = ?st" by simp
  from ct have cp: "nChangePos = 0" by (simp add: env_change_def)
  from k st cp have "mapValue ?wtx (snprintf_n_u (0 + 1)) = Some ''yo''" by simp
  with c s show ?thesis by blast
qed

end
